theory Spec2Isabelle
  imports Main "HOL-Library.Sublist"
begin

section \<open>Data model of index.tsx\<close>

text \<open>
  The interfaces \<^verbatim>\<open>Scene\<close>, \<^verbatim>\<open>PromptEntry\<close>, \<^verbatim>\<open>Session\<close> and \<^verbatim>\<open>GlobalMessage\<close>
  become records. A field of type \<^verbatim>\<open>string | null\<close> is a \<open>string option\<close>. Field names
  that clash with a HOL constant or an Isabelle keyword (\<^verbatim>\<open>id\<close>, \<^verbatim>\<open>image\<close>, \<^verbatim>\<open>text\<close>,
  \<^verbatim>\<open>type\<close>) carry a suffix naming their record. Strings are byte strings; the program's
  own literals are all ASCII.
\<close>

record Scene =
  id_scene :: nat
  prompt :: string
  image_scene :: "string option"
  isLoading :: bool
  error :: "string option"

record PromptEntry =
  id_entry :: string
  text_entry :: string
  timestamp_entry :: string

record Session =
  id_session :: string
  timestamp :: string
  script :: string
  scenes :: "Scene list"

datatype MessageType = MsgError | MsgInfo | MsgSuccess

record GlobalMessage =
  text_msg :: string
  type_msg :: MessageType

text \<open>
  JavaScript truthiness of a \<^verbatim>\<open>string | null\<close> value, as tested by \<^verbatim>\<open>s.image &&\<close>,
  \<^verbatim>\<open>some(s => s.image)\<close> and \<^verbatim>\<open>s.error || ...\<close>: null and the empty string are falsy.
\<close>

fun truthy :: "string option \<Rightarrow> bool" where
  "truthy None = False"
| "truthy (Some s) = (s \<noteq> [])"

section \<open>Strings: toLowerCase and includes\<close>

text \<open>\<^verbatim>\<open>String.prototype.toLowerCase\<close> on the ASCII range: only A..Z change.\<close>

definition toLowerCase_char :: "char \<Rightarrow> char" where
  "toLowerCase_char c =
     (case map_of (zip ''ABCDEFGHIJKLMNOPQRSTUVWXYZ'' ''abcdefghijklmnopqrstuvwxyz'') c of
        None \<Rightarrow> c
      | Some l \<Rightarrow> l)"

definition toLowerCase :: "string \<Rightarrow> string" where
  "toLowerCase s = map toLowerCase_char s"

text \<open>
  \<^verbatim>\<open>s.includes(needle)\<close>: the needle starts at some position of \<open>s\<close>
  (the empty needle is found in every string).
\<close>

fun startsWith :: "string \<Rightarrow> string \<Rightarrow> bool" where
  "startsWith s [] = True"
| "startsWith [] (n # ns) = False"
| "startsWith (c # cs) (n # ns) = (c = n \<and> startsWith cs ns)"

fun includes_str :: "string \<Rightarrow> string \<Rightarrow> bool" where
  "includes_str [] needle = (needle = [])"
| "includes_str (c # cs) needle = (startsWith (c # cs) needle \<or> includes_str cs needle)"

section \<open>handleApiError\<close>

text \<open>
  In the pipeline a caught failure is an error object whose \<^verbatim>\<open>message\<close> is a string or
  absent. The template literal \<^verbatim>\<open>${e.message}\<close> renders an absent message as
  \<^verbatim>\<open>undefined\<close>. The function's only effect is \<^verbatim>\<open>setGlobalMessage\<close>; the model returns
  the message that is set. Messages are lower-cased on the ASCII range here; the function
  on any thrown value and with the built-in lower-casing follows below.
\<close>

record ApiError =
  message :: "string option"

definition handleApiError :: "ApiError \<Rightarrow> GlobalMessage" where
  "handleApiError e =
     (let msg = (case message e of None \<Rightarrow> '''' | Some m \<Rightarrow> toLowerCase m);
          userMessage = ''An API error occurred: '' @
                        (case message e of None \<Rightarrow> ''undefined'' | Some m \<Rightarrow> m)
      in if includes_str msg ''permission denied'' \<or> includes_str msg ''api key not valid''
         then \<lparr>text_msg = ''The configured API key is invalid or has been blocked.'',
               type_msg = MsgError\<rparr>
         else if includes_str msg ''quota''
         then \<lparr>text_msg = ''The API key has exceeded its quota.'', type_msg = MsgError\<rparr>
         else \<lparr>text_msg = userMessage, type_msg = MsgError\<rparr>)"

text \<open>
  \<^verbatim>\<open>handleApiError\<close> on any thrown value. The value is null or undefined, or it is a value
  whose \<^verbatim>\<open>message\<close> property reads as undefined, as null, as a string, or as something
  that is not a string and has no \<^verbatim>\<open>toLowerCase\<close> method. Reading \<^verbatim>\<open>e.message\<close> of null or
  undefined raises a TypeError, and so does the call of the missing method; both happen
  in the first statement, before any message is set. \<^verbatim>\<open>String.prototype.toLowerCase\<close> is
  the parameter \<open>lower\<close>.
\<close>

datatype jsvalue = Undefined | Null | Str string | NotAString

datatype failure = ThrownNullish | ThrownWithMessage jsvalue

datatype jsError = TypeError

definition handleApiError_raw :: "(string \<Rightarrow> string) \<Rightarrow> failure \<Rightarrow> jsError + GlobalMessage" where
  "handleApiError_raw lower e =
     (case e of
        ThrownNullish \<Rightarrow> Inl TypeError
      | ThrownWithMessage NotAString \<Rightarrow> Inl TypeError
      | ThrownWithMessage v \<Rightarrow>
          let msg = (case v of Str m \<Rightarrow> lower m | _ \<Rightarrow> '''');
              userMessage = ''An API error occurred: '' @
                            (case v of Str m \<Rightarrow> m | Null \<Rightarrow> ''null'' | _ \<Rightarrow> ''undefined'')
          in Inr (if includes_str msg ''permission denied'' \<or> includes_str msg ''api key not valid''
                  then \<lparr>text_msg = ''The configured API key is invalid or has been blocked.'',
                        type_msg = MsgError\<rparr>
                  else if includes_str msg ''quota''
                  then \<lparr>text_msg = ''The API key has exceeded its quota.'', type_msg = MsgError\<rparr>
                  else \<lparr>text_msg = userMessage, type_msg = MsgError\<rparr>))"

section \<open>External services and application state\<close>

text \<open>
  A service call either returns or throws. The image service's answer is reduced to what
  the program reads from it: \<open>Some bytes\<close> when \<^verbatim>\<open>generatedImages[0].image\<close> is present,
  \<open>None\<close> when the answer holds no image. The prompt-decomposition call throws (the
  request or \<^verbatim>\<open>JSON.parse\<close>), or parses to something that is not an array, or to an
  array of strings.
\<close>

datatype 'a attempt = Returns 'a | Throws ApiError

datatype decomposition = PromptsThrow ApiError | PromptsNotArray | PromptsArray "string list"

text \<open>
  The environment of one operation: whether \<^verbatim>\<open>process.env.API_KEY\<close> is set, the answers
  of the three service calls, and the two readings of the clock. The image service is
  indexed by the number of image requests already sent in the operation and by the
  prompt, so equal prompts may receive different answers.
\<close>

record Env =
  apiKey :: bool
  describeReference :: "string attempt"
  decomposeScript :: decomposition
  generateImage :: "nat \<Rightarrow> string \<Rightarrow> string option attempt"
  nowId :: string
  nowTimestamp :: string

text \<open>The inputs of the generation form that the pipeline reads.\<close>

record Inputs =
  script_input :: string
  style :: string
  referenceImage :: bool

text \<open>The React state of \<^verbatim>\<open>App\<close> that the core reads and writes.\<close>

record AppState =
  sessions :: "Session list"
  promptHistory :: "PromptEntry list"
  scenes_ws :: "Scene list"
  isGenerating :: bool
  globalMessage :: "GlobalMessage option"

section \<open>Style resolution and the image prompt\<close>

text \<open>
  \<^verbatim>\<open>String.prototype.trim\<close> on the ASCII range: space, tab, line feed, vertical tab, form
  feed and carriage return. The trimmed style only enters the text of the image prompt.
\<close>

definition isSpace :: "char \<Rightarrow> bool" where
  "isSpace c = (c \<in> set [CHR '' '', CHR 0x09, CHR 0x0A, CHR 0x0B, CHR 0x0C, CHR 0x0D])"

definition trim :: "string \<Rightarrow> string" where
  "trim s = rev (dropWhile isSpace (rev (dropWhile isSpace s)))"

text \<open>
  Both \<^verbatim>\<open>generateImages\<close> and \<^verbatim>\<open>handleRegenerateScene\<close> compute \<^verbatim>\<open>combinedStyle\<close> the
  same way: the trimmed style, or with a reference image the trimmed
  \<^verbatim>\<open>`${describeResponse.text} ${style}`\<close>; the description call may throw.
\<close>

definition combinedStyle :: "Env \<Rightarrow> Inputs \<Rightarrow> string attempt" where
  "combinedStyle env inp =
     (if referenceImage inp
      then (case describeReference env of
              Throws e \<Rightarrow> Throws e
            | Returns d \<Rightarrow> Returns (trim (d @ '' '' @ style inp)))
      else Returns (trim (style inp)))"

definition fullPrompt :: "string \<Rightarrow> string \<Rightarrow> string" where
  "fullPrompt p st =
     ''An image of '' @ [CHR 0x22] @ p @ [CHR 0x22] @ '' in the style of '' @
     [CHR 0x22] @ st @ [CHR 0x22] @ ''. 4k quality.''"

definition imageUrl :: "string \<Rightarrow> string" where
  "imageUrl bytes = ''data:image/jpeg;base64,'' @ bytes"

section \<open>generateImages\<close>

text \<open>\<^verbatim>\<open>promptTexts.map((p, index) => ({ id: index, prompt: p, image: null, ... }))\<close>\<close>

definition newScenes :: "string list \<Rightarrow> Scene list" where
  "newScenes promptTexts =
     map (\<lambda>(index, p). \<lparr>id_scene = index, prompt = p, image_scene = None,
                          isLoading = True, error = None\<rparr>)
         (enumerate 0 promptTexts)"

text \<open>The scene written after a call that returned: an image, or the blocked label.\<close>

definition updatedScene :: "Scene \<Rightarrow> string option \<Rightarrow> Scene" where
  "updatedScene scene r =
     (case r of
        Some bytes \<Rightarrow> scene\<lparr>image_scene := Some (imageUrl bytes), isLoading := False,
                             error := None\<rparr>
      | None \<Rightarrow> scene\<lparr>image_scene := None, isLoading := False,
                       error := Some ''Generation blocked or failed.''\<rparr>)"

text \<open>\<^verbatim>\<open>prev.map(s => s.id === scene.id ? updatedScene : s)\<close>\<close>

definition replaceScene :: "nat \<Rightarrow> Scene \<Rightarrow> Scene list \<Rightarrow> Scene list" where
  "replaceScene sceneId u prev = map (\<lambda>s. if id_scene s = sceneId then u else s) prev"

text \<open>
  The update of the catch branch in the loop:
  \<^verbatim>\<open>prev.map(s => ({...s, isLoading: false, error: s.isLoading ? finalError : s.error}))\<close>
  with \<^verbatim>\<open>finalError = `API Error.`\<close>.
\<close>

definition stopFurther :: "Scene list \<Rightarrow> Scene list" where
  "stopFurther prev =
     map (\<lambda>s. s\<lparr>isLoading := False,
                 error := (if isLoading s then Some ''API Error.'' else error s)\<rparr>) prev"

text \<open>
  The \<^verbatim>\<open>for (const scene of newScenes)\<close> loop. Its state is the \<^verbatim>\<open>scenes\<close> state of the
  view, the local \<^verbatim>\<open>finalScenes\<close>, the prompts of the image requests sent so far and the
  failure that ended the loop, if one did. A throwing call ends the loop at once.
\<close>

record Loop =
  current :: "Scene list"
  finalScenes :: "Scene list"
  imageCalls :: "string list"
  thrown :: "ApiError option"

fun synthLoop :: "(nat \<Rightarrow> string \<Rightarrow> string option attempt) \<Rightarrow> string \<Rightarrow> Scene list \<Rightarrow> Loop \<Rightarrow> Loop" where
  "synthLoop svc st [] L = L"
| "synthLoop svc st (scene # rest) L =
     (let p = fullPrompt (prompt scene) st;
          sent = imageCalls L @ [p]
      in case svc (length (imageCalls L)) p of
           Throws e \<Rightarrow>
             L\<lparr>current := stopFurther (current L), imageCalls := sent, thrown := Some e\<rparr>
         | Returns r \<Rightarrow>
             synthLoop svc st rest
               (L\<lparr>current := replaceScene (id_scene scene) (updatedScene scene r) (current L),
                  finalScenes := finalScenes L @ [updatedScene scene r],
                  imageCalls := sent\<rparr>))"

text \<open>
  What one click on "Generate Images" leaves behind: the state, the image requests that
  were sent, and the session passed to \<^verbatim>\<open>onGenerationComplete\<close>, if the call was made.
\<close>

record Run =
  state :: AppState
  requests :: "string list"
  completed :: "Session option"

text \<open>
  The \<^verbatim>\<open>finally\<close> block: it runs on every path that entered the outer \<^verbatim>\<open>try\<close>, also
  after a \<^verbatim>\<open>return\<close> inside it.
\<close>

definition finish :: "Env \<Rightarrow> Inputs \<Rightarrow> Scene list \<Rightarrow> string list \<Rightarrow> AppState \<Rightarrow> Run" where
  "finish env inp final sent s =
     \<lparr>state = s\<lparr>isGenerating := False\<rparr>,
      requests = sent,
      completed =
        (if list_ex (\<lambda>sc. truthy (image_scene sc)) final
         then Some \<lparr>id_session = nowId env, timestamp = nowTimestamp env,
                    script = script_input inp,
                    scenes = filter (\<lambda>sc. \<not> isLoading sc) final\<rparr>
         else None)\<rparr>"

definition generateImages :: "Env \<Rightarrow> Inputs \<Rightarrow> AppState \<Rightarrow> Run" where
  "generateImages env inp s0 =
     (if script_input inp = [] then
        \<lparr>state = s0\<lparr>globalMessage :=
            Some \<lparr>text_msg = ''Script cannot be empty.'', type_msg = MsgError\<rparr>\<rparr>,
         requests = [], completed = None\<rparr>
      else if \<not> apiKey env then
        \<lparr>state = s0\<lparr>globalMessage :=
            Some \<lparr>text_msg = ''API key is not configured. Please set the API_KEY environment variable.'',
                  type_msg = MsgError\<rparr>\<rparr>,
         requests = [], completed = None\<rparr>
      else
        let s1 = s0\<lparr>isGenerating := True, globalMessage := None, scenes_ws := []\<rparr>
        in case combinedStyle env inp of
             Throws e \<Rightarrow>
               finish env inp [] [] (s1\<lparr>globalMessage := Some (handleApiError e)\<rparr>)
           | Returns st \<Rightarrow>
               (case decomposeScript env of
                  PromptsThrow e \<Rightarrow>
                    finish env inp [] [] (s1\<lparr>globalMessage := Some (handleApiError e)\<rparr>)
                | PromptsNotArray \<Rightarrow>
                    finish env inp [] []
                      (s1\<lparr>globalMessage :=
                           Some \<lparr>text_msg = ''An error occurred: Could not generate any prompts from the script.'',
                                 type_msg = MsgError\<rparr>,
                         scenes_ws :=
                           map (\<lambda>sc. sc\<lparr>isLoading := False,
                                          error := (if truthy (error sc) then error sc
                                                    else Some ''Generation process failed.'')\<rparr>)
                               (scenes_ws s1)\<rparr>)
                | PromptsArray promptTexts \<Rightarrow>
                    if promptTexts = [] then
                      finish env inp [] []
                        (s1\<lparr>globalMessage :=
                             Some \<lparr>text_msg = ''An error occurred: Could not generate any prompts from the script.'',
                                   type_msg = MsgError\<rparr>,
                           scenes_ws :=
                             map (\<lambda>sc. sc\<lparr>isLoading := False,
                                            error := (if truthy (error sc) then error sc
                                                      else Some ''Generation process failed.'')\<rparr>)
                                 (scenes_ws s1)\<rparr>)
                    else
                      let L = synthLoop (generateImage env) st (newScenes promptTexts)
                                \<lparr>current = newScenes promptTexts, finalScenes = [],
                                 imageCalls = [], thrown = None\<rparr>
                      in finish env inp (finalScenes L) (imageCalls L)
                           (case thrown L of
                              None \<Rightarrow> s1\<lparr>scenes_ws := current L\<rparr>
                            | Some e \<Rightarrow> s1\<lparr>scenes_ws := current L,
                                            globalMessage := Some (handleApiError e)\<rparr>)))"

section \<open>handleRegenerateScene\<close>

text \<open>
  \<^verbatim>\<open>scenes.find\<close> picks the first scene with the id. Every later write maps over the
  whole list and touches the scenes whose id is \<^verbatim>\<open>sceneId\<close>. The result is the state and
  the image requests sent (at most one).
\<close>

definition markScene :: "nat \<Rightarrow> string \<Rightarrow> Scene list \<Rightarrow> Scene list" where
  "markScene sceneId finalError prev =
     map (\<lambda>s. if id_scene s = sceneId
               then s\<lparr>isLoading := False, error := Some finalError\<rparr> else s) prev"

definition handleRegenerateScene :: "Env \<Rightarrow> Inputs \<Rightarrow> nat \<Rightarrow> AppState \<Rightarrow> AppState \<times> string list" where
  "handleRegenerateScene env inp sceneId s0 =
     (case find (\<lambda>s. id_scene s = sceneId) (scenes_ws s0) of
        None \<Rightarrow> (s0, [])
      | Some sceneToRegenerate \<Rightarrow>
          if \<not> apiKey env then
            (s0\<lparr>globalMessage :=
                 Some \<lparr>text_msg = ''API key is not configured.'', type_msg = MsgError\<rparr>\<rparr>, [])
          else
            let s1 = s0\<lparr>scenes_ws :=
                       map (\<lambda>s. if id_scene s = sceneId
                                 then s\<lparr>isLoading := True, error := None\<rparr> else s)
                           (scenes_ws s0)\<rparr>
            in case combinedStyle env inp of
                 Throws e \<Rightarrow>
                   (s1\<lparr>globalMessage := Some (handleApiError e),
                       scenes_ws := markScene sceneId ''Ref image error.'' (scenes_ws s1)\<rparr>, [])
               | Returns st \<Rightarrow>
                   let p = fullPrompt (prompt sceneToRegenerate) st
                   in case generateImage env 0 p of
                        Returns (Some bytes) \<Rightarrow>
                          (s1\<lparr>scenes_ws :=
                                replaceScene sceneId
                                  (sceneToRegenerate\<lparr>image_scene := Some (imageUrl bytes),
                                                     isLoading := False, error := None\<rparr>)
                                  (scenes_ws s1)\<rparr>, [p])
                      | Returns None \<Rightarrow>
                          (s1\<lparr>scenes_ws :=
                                markScene sceneId ''Regeneration blocked or failed.''
                                  (scenes_ws s1)\<rparr>, [p])
                      | Throws e \<Rightarrow>
                          (s1\<lparr>globalMessage := Some (handleApiError e),
                              scenes_ws := markScene sceneId ''API Error.'' (scenes_ws s1)\<rparr>,
                           [p]))"

text \<open>The scene list that a regeneration leaves in the view.\<close>

definition scenesAfterRegenerate :: "Env \<Rightarrow> Inputs \<Rightarrow> nat \<Rightarrow> AppState \<Rightarrow> Scene list" where
  "scenesAfterRegenerate env inp sceneId s0 =
     scenes_ws (fst (handleRegenerateScene env inp sceneId s0))"

section \<open>handleGenerationComplete\<close>

text \<open>
  What \<^verbatim>\<open>localStorage.setItem\<close> throws: the program reads \<^verbatim>\<open>e.name\<close> and \<^verbatim>\<open>e.code\<close>.
  The test of the catch branch is
  \<^verbatim>\<open>e.name === 'QuotaExceededError' || (e.code && (e.code === 22 || e.code === 1014))\<close>.
\<close>

record StorageError =
  name :: string
  code :: "int option"

definition isQuotaExceeded :: "StorageError \<Rightarrow> bool" where
  "isQuotaExceeded e =
     (name e = ''QuotaExceededError'' \<or>
      (case code e of None \<Rightarrow> False | Some c \<Rightarrow> c \<noteq> 0 \<and> (c = 22 \<or> c = 1014)))"

text \<open>
  The dry run writes the serialized candidate under the key \<^verbatim>\<open>zarrar-sessions-check\<close>
  and removes it again; the stored keys are the same before and after, so within one call
  its outcome is a function of the candidate: \<open>None\<close> when the write went through, the
  thrown value otherwise. The loop drops the oldest session (\<^verbatim>\<open>shift\<close>) while the dry run
  fails for quota and more than one session is left; \<open>None\<close> is the aborted save.
\<close>

type_synonym probe = "Session list \<Rightarrow> StorageError option"

function saveLoop :: "probe \<Rightarrow> Session list \<Rightarrow> Session list option" where
  "saveLoop dryRun sessionsToSave =
     (case dryRun sessionsToSave of
        None \<Rightarrow> Some sessionsToSave
      | Some e \<Rightarrow>
          if isQuotaExceeded e \<and> length sessionsToSave > 1
          then saveLoop dryRun (tl sessionsToSave)
          else None)"
  by pat_completeness auto
termination
  by (relation "measure (\<lambda>(dryRun, sessionsToSave). length sessionsToSave)") auto

text \<open>Decimal digits of a scene id, as the template literal prints a number.\<close>

fun digits :: "nat \<Rightarrow> string" where
  "digits n =
     (if n < 10 then [''0123456789'' ! n]
      else digits (n div 10) @ [''0123456789'' ! (n mod 10)])"

definition newPrompts :: "Session \<Rightarrow> PromptEntry list" where
  "newPrompts newSession =
     map (\<lambda>s. \<lparr>id_entry = id_session newSession @ ''-'' @ digits (id_scene s),
                text_entry = prompt s,
                timestamp_entry = timestamp newSession\<rparr>)
         (filter (\<lambda>s. prompt s \<noteq> []) (scenes newSession))"

definition handleGenerationComplete :: "probe \<Rightarrow> Session \<Rightarrow> AppState \<Rightarrow> AppState" where
  "handleGenerationComplete dryRun newSession s0 =
     (let s1 = s0\<lparr>promptHistory := promptHistory s0 @ newPrompts newSession\<rparr>
      in case saveLoop dryRun (sessions s0 @ [newSession]) of
           None \<Rightarrow>
             s1\<lparr>globalMessage :=
                  Some \<lparr>text_msg = ''Storage is full. Could not save session. Please clear some assets.'',
                        type_msg = MsgError\<rparr>\<rparr>
         | Some sessionsToSave \<Rightarrow> s1\<lparr>sessions := sessionsToSave\<rparr>)"

text \<open>
  A click on "Generate Images" in the running application: \<^verbatim>\<open>generateImages\<close> with
  \<^verbatim>\<open>handleGenerationComplete\<close> as its \<^verbatim>\<open>onGenerationComplete\<close> callback, which is the last
  statement of the \<^verbatim>\<open>finally\<close> block.
\<close>

definition generateAndSave :: "probe \<Rightarrow> Env \<Rightarrow> Inputs \<Rightarrow> AppState \<Rightarrow> AppState" where
  "generateAndSave dryRun env inp s0 =
     (let r = generateImages env inp s0
      in case completed r of
           None \<Rightarrow> state r
         | Some newSession \<Rightarrow> handleGenerationComplete dryRun newSession (state r))"

section \<open>promptImageMap\<close>

text \<open>
  The \<^verbatim>\<open>Map\<close> built by the two nested loops of \<^verbatim>\<open>HistoryView\<close>: a scene enters only with
  a truthy image and only when its prompt has no entry yet. \<^verbatim>\<open>promptImageMap.get(text)\<close>
  is the application of the map.
\<close>

definition addScene :: "Scene \<Rightarrow> (string \<rightharpoonup> string) \<Rightarrow> (string \<rightharpoonup> string)" where
  "addScene scene m =
     (case image_scene scene of
        None \<Rightarrow> m
      | Some img \<Rightarrow> if img \<noteq> [] \<and> m (prompt scene) = None then m(prompt scene \<mapsto> img) else m)"

definition promptImageMap :: "Session list \<Rightarrow> (string \<rightharpoonup> string)" where
  "promptImageMap ss = fold (\<lambda>session m. fold addScene (scenes session) m) ss Map.empty"

text \<open>
  The images the program stores are null or a data URL (\<^verbatim>\<open>imageUrl\<close>), never the empty
  string; this is the condition on a stored session sequence.
\<close>

definition noBlankImages :: "Session list \<Rightarrow> bool" where
  "noBlankImages ss =
     list_all (\<lambda>session. list_all (\<lambda>sc. image_scene sc \<noteq> Some []) (scenes session)) ss"

section \<open>Example inputs\<close>

text \<open>
  Two sessions about a cat, a third about a bird,
  a storage error as browsers raise it on a full quota, and a store whose dry run accepts
  at most \<open>n\<close> sessions.
\<close>

definition sceneCat :: Scene where
  "sceneCat = \<lparr>id_scene = 0, prompt = ''a cat'', image_scene = Some ''data:image/jpeg;base64,Q0FU'',
                isLoading = False, error = None\<rparr>"

definition sceneDog :: Scene where
  "sceneDog = \<lparr>id_scene = 1, prompt = ''a dog'', image_scene = None,
                isLoading = False, error = Some ''API Error.''\<rparr>"

definition sceneBird :: Scene where
  "sceneBird = \<lparr>id_scene = 0, prompt = ''a bird'', image_scene = Some ''data:image/jpeg;base64,QklSRA=='',
                isLoading = False, error = None\<rparr>"

definition sceneCatLater :: Scene where
  "sceneCatLater = \<lparr>id_scene = 2, prompt = ''a cat'', image_scene = Some ''data:image/jpeg;base64,TEFURVI='',
                isLoading = False, error = None\<rparr>"

definition sessionA :: Session where
  "sessionA = \<lparr>id_session = ''2024-05-01T10:00:00.000Z'', timestamp = ''2024-05-01T10:00:00.001Z'',
                script = ''A cat meets a dog.'', scenes = [sceneCat, sceneDog]\<rparr>"

definition sessionB :: Session where
  "sessionB = \<lparr>id_session = ''2024-05-02T10:00:00.000Z'', timestamp = ''2024-05-02T10:00:00.001Z'',
                script = ''The cat returns.'', scenes = [sceneCatLater]\<rparr>"

definition sessionC :: Session where
  "sessionC = \<lparr>id_session = ''2024-05-03T10:00:00.000Z'', timestamp = ''2024-05-03T10:00:00.001Z'',
                script = ''A bird.'', scenes = [sceneBird]\<rparr>"

definition quotaError :: StorageError where
  "quotaError = \<lparr>name = ''QuotaExceededError'', code = Some 22\<rparr>"

definition roomFor :: "nat \<Rightarrow> probe" where
  "roomFor n ss = (if length ss \<le> n then None else Some quotaError)"

definition appWith :: "Session list \<Rightarrow> Scene list \<Rightarrow> AppState" where
  "appWith ss scs = \<lparr>sessions = ss, promptHistory = [], scenes_ws = scs,
                      isGenerating = False, globalMessage = None\<rparr>"

definition throwingEnv :: Env where
  "throwingEnv = \<lparr>apiKey = True, describeReference = Returns ''moody, blue'',
                   decomposeScript = PromptsArray [''a cat'', ''a dog''],
                   generateImage = (\<lambda>n p. Throws \<lparr>message = Some ''Quota exceeded for today''\<rparr>),
                   nowId = ''2024-05-04T10:00:00.000Z'', nowTimestamp = ''2024-05-04T10:00:00.001Z''\<rparr>"

definition plainInputs :: Inputs where
  "plainInputs = \<lparr>script_input = ''A cat meets a dog.'', style = '' watercolor '', referenceImage = False\<rparr>"

definition deniedEnv :: Env where
  "deniedEnv = throwingEnv\<lparr>generateImage := (\<lambda>n p. Throws \<lparr>message = Some ''Permission denied''\<rparr>)\<rparr>"

definition secondFailsEnv :: Env where
  "secondFailsEnv =
     \<lparr>apiKey = True, describeReference = Returns ''moody, blue'',
      decomposeScript = PromptsArray [''a cat'', ''a dog'', ''a bird''],
      generateImage = (\<lambda>n p. if n = 0 then Returns (Some ''Q0FU'')
                               else Throws \<lparr>message = Some ''Quota exceeded for today''\<rparr>),
      nowId = ''2024-05-04T10:00:00.000Z'', nowTimestamp = ''2024-05-04T10:00:00.001Z''\<rparr>"

section \<open>Facts about strings\<close>

lemma startsWith_prefix: "startsWith s n = prefix n s"
  by (induction s n rule: startsWith.induct) auto

lemma includes_sublist: "includes_str s n = sublist n s"
proof (induction s)
  case Nil
  show ?case by auto
next
  case (Cons c cs)
  show ?case
    unfolding includes_str.simps startsWith_prefix Cons.IH sublist_Cons_right ..
qed

section \<open>Error classification\<close>

text \<open>
  On an error object with a string or absent message and an ASCII message, the pipeline's
  \<^verbatim>\<open>handleApiError\<close> is the function on any thrown value.
\<close>

lemma handleApiError_restricts:
  "handleApiError_raw toLowerCase
     (ThrownWithMessage (case message e of None \<Rightarrow> Undefined | Some m \<Rightarrow> Str m)) =
   Inr (handleApiError e)"
  by (cases "message e") (simp_all add: handleApiError_raw_def handleApiError_def Let_def)

text \<open>
  Claim C8, amended. For a thrown value that is not null or undefined and whose message
  is absent (undefined or null) or a string, \<^verbatim>\<open>handleApiError\<close> does not fail, and the
  notification it sets is decided by substring match on the lower-cased message (an
  absent message is matched as the empty string), in this order: "permission denied" or
  "api key not valid" gives the invalid-credential text; otherwise "quota" gives the quota
  text; otherwise the generic text that quotes the message (InvalidCredential,
  QuotaExceeded and Transient of the specification). On null, on undefined and on a
  message that is neither absent nor a string the function raises a TypeError.
\<close>

theorem handleApiError_classification:
  "handleApiError_raw lower ThrownNullish = Inl TypeError \<and>
   handleApiError_raw lower (ThrownWithMessage NotAString) = Inl TypeError \<and>
   (v \<noteq> NotAString \<longrightarrow>
      handleApiError_raw lower (ThrownWithMessage v) =
        Inr (let m = (case v of Str s \<Rightarrow> lower s | _ \<Rightarrow> [])
             in if sublist ''permission denied'' m \<or> sublist ''api key not valid'' m
                then \<lparr>text_msg = ''The configured API key is invalid or has been blocked.'',
                      type_msg = MsgError\<rparr>
                else if sublist ''quota'' m
                then \<lparr>text_msg = ''The API key has exceeded its quota.'', type_msg = MsgError\<rparr>
                else \<lparr>text_msg = ''An API error occurred: '' @
                                   (case v of Str s \<Rightarrow> s | Null \<Rightarrow> ''null'' | _ \<Rightarrow> ''undefined''),
                      type_msg = MsgError\<rparr>))"
  by (cases v) (simp_all add: handleApiError_raw_def Let_def includes_sublist)

theorem handleApiError_classification_witness:
  "Str ''Error 403: API Key Not Valid (QUOTA)'' \<noteq> NotAString \<and>
   handleApiError_raw toLowerCase (ThrownWithMessage (Str ''Error 403: API Key Not Valid (QUOTA)'')) =
     Inr \<lparr>text_msg = ''The configured API key is invalid or has been blocked.'',
          type_msg = MsgError\<rparr> \<and>
   handleApiError_raw toLowerCase (ThrownWithMessage (Str ''Daily Quota reached'')) =
     Inr \<lparr>text_msg = ''The API key has exceeded its quota.'', type_msg = MsgError\<rparr> \<and>
   handleApiError_raw toLowerCase (ThrownWithMessage Undefined) =
     Inr \<lparr>text_msg = ''An API error occurred: undefined'', type_msg = MsgError\<rparr>"
proof -
  have a: "includes_str (toLowerCase ''Error 403: API Key Not Valid (QUOTA)'') ''api key not valid''"
    by (simp add: toLowerCase_def toLowerCase_char_def)
  have b: "\<not> includes_str (toLowerCase ''Daily Quota reached'') ''permission denied''"
     "\<not> includes_str (toLowerCase ''Daily Quota reached'') ''api key not valid''"
     "includes_str (toLowerCase ''Daily Quota reached'') ''quota''"
    by (simp_all add: toLowerCase_def toLowerCase_char_def)
  show ?thesis
    using a b
      handleApiError_classification [of toLowerCase "Str ''Error 403: API Key Not Valid (QUOTA)''"]
      handleApiError_classification [of toLowerCase "Str ''Daily Quota reached''"]
      handleApiError_classification [of toLowerCase Undefined]
    by (simp add: includes_sublist)
qed

text \<open>
  Claim C8 as stated fails where it says that classification never fails on any failure
  value: on a thrown null or undefined, and on a message that is not a string, the first
  statement of \<^verbatim>\<open>handleApiError\<close> raises a TypeError.
\<close>

theorem handleApiError_total_counterexample:
  "handleApiError_raw toLowerCase ThrownNullish = Inl TypeError \<and>
   handleApiError_raw toLowerCase (ThrownWithMessage NotAString) = Inl TypeError"
  by (simp add: handleApiError_raw_def)

section \<open>Regeneration of one scene\<close>

lemma markScene_length [simp]: "length (markScene k e xs) = length xs"
  by (simp add: markScene_def)

lemma replaceScene_length [simp]: "length (replaceScene k u xs) = length xs"
  by (simp add: replaceScene_def)

lemma markScene_other:
  "i < length xs \<Longrightarrow> id_scene (xs ! i) \<noteq> k \<Longrightarrow> markScene k e xs ! i = xs ! i"
  by (simp add: markScene_def)

lemma replaceScene_other:
  "i < length xs \<Longrightarrow> id_scene (xs ! i) \<noteq> k \<Longrightarrow> replaceScene k u xs ! i = xs ! i"
  by (simp add: replaceScene_def)

lemma markScene_target:
  "i < length xs \<Longrightarrow> id_scene (xs ! i) = k \<Longrightarrow>
   markScene k e xs ! i = (xs ! i)\<lparr>isLoading := False, error := Some e\<rparr>"
  by (simp add: markScene_def)

lemma replaceScene_target:
  "i < length xs \<Longrightarrow> id_scene (xs ! i) = k \<Longrightarrow> replaceScene k u xs ! i = u"
  by (simp add: replaceScene_def)

text \<open>
  Claim C7. Whatever the services answer (success, blocked or empty output, a failing
  reference analysis, a failing synthesis call, a missing key or an unknown id),
  regenerating the scene with id \<open>sceneId\<close> keeps the length of the scene list and leaves
  every scene with another id exactly as it was: id, prompt, image, loading flag and
  error.
\<close>

theorem regenerate_leaves_other_scenes:
  "length (scenesAfterRegenerate env inp sceneId s0) = length (scenes_ws s0) \<and>
   (\<forall>i < length (scenes_ws s0).
      id_scene (scenes_ws s0 ! i) \<noteq> sceneId \<longrightarrow>
      scenesAfterRegenerate env inp sceneId s0 ! i = scenes_ws s0 ! i)"
  by (simp add: scenesAfterRegenerate_def handleRegenerateScene_def Let_def
      markScene_other replaceScene_other
      split: option.split attempt.split)

theorem regenerate_leaves_other_scenes_witness:
  "id_scene (scenes_ws (appWith [] [sceneCat, sceneDog]) ! 0) \<noteq> 1 \<and>
   scenesAfterRegenerate throwingEnv plainInputs 1 (appWith [] [sceneCat, sceneDog]) ! 0 = sceneCat"
  using regenerate_leaves_other_scenes [of throwingEnv plainInputs 1 "appWith [] [sceneCat, sceneDog]"]
  by (simp add: appWith_def sceneCat_def sceneDog_def)

text \<open>
  Claim C10. For a scene with the regenerated id, each failing outcome (reference
  analysis throws, synthesis returns no image, synthesis throws) keeps the image the scene
  held and sets its error label; a successful synthesis stores the new image and clears the
  error; and the image differs afterwards only if the synthesis call returned an image.
\<close>

theorem regenerate_failure_keeps_image:
  assumes found: "find (\<lambda>s. id_scene s = sceneId) (scenes_ws s0) = Some sc"
    and key: "apiKey env"
    and i: "i < length (scenes_ws s0)" "id_scene (scenes_ws s0 ! i) = sceneId"
  shows
    "(combinedStyle env inp = Throws e \<longrightarrow>
        image_scene (scenesAfterRegenerate env inp sceneId s0 ! i) = image_scene (scenes_ws s0 ! i) \<and>
        error (scenesAfterRegenerate env inp sceneId s0 ! i) = Some ''Ref image error.'') \<and>
     (combinedStyle env inp = Returns st \<and>
      generateImage env 0 (fullPrompt (prompt sc) st) = Returns None \<longrightarrow>
        image_scene (scenesAfterRegenerate env inp sceneId s0 ! i) = image_scene (scenes_ws s0 ! i) \<and>
        error (scenesAfterRegenerate env inp sceneId s0 ! i) = Some ''Regeneration blocked or failed.'') \<and>
     (combinedStyle env inp = Returns st \<and>
      generateImage env 0 (fullPrompt (prompt sc) st) = Throws e \<longrightarrow>
        image_scene (scenesAfterRegenerate env inp sceneId s0 ! i) = image_scene (scenes_ws s0 ! i) \<and>
        error (scenesAfterRegenerate env inp sceneId s0 ! i) = Some ''API Error.'') \<and>
     (combinedStyle env inp = Returns st \<and>
      generateImage env 0 (fullPrompt (prompt sc) st) = Returns (Some bytes) \<longrightarrow>
        image_scene (scenesAfterRegenerate env inp sceneId s0 ! i) = Some (imageUrl bytes) \<and>
        error (scenesAfterRegenerate env inp sceneId s0 ! i) = None) \<and>
     (image_scene (scenesAfterRegenerate env inp sceneId s0 ! i) \<noteq> image_scene (scenes_ws s0 ! i) \<longrightarrow>
        (\<exists>st' bytes'. combinedStyle env inp = Returns st' \<and>
           generateImage env 0 (fullPrompt (prompt sc) st') = Returns (Some bytes')))"
  using found key i
  by (simp add: scenesAfterRegenerate_def handleRegenerateScene_def Let_def
      markScene_target replaceScene_target split: attempt.split option.split)

theorem regenerate_failure_keeps_image_witness:
  "find (\<lambda>s. id_scene s = 0) (scenes_ws (appWith [] [sceneCat, sceneDog])) = Some sceneCat \<and>
   combinedStyle throwingEnv plainInputs = Returns ''watercolor'' \<and>
   generateImage throwingEnv 0 (fullPrompt (prompt sceneCat) ''watercolor'') =
     Throws \<lparr>message = Some ''Quota exceeded for today''\<rparr> \<and>
   image_scene (scenesAfterRegenerate throwingEnv plainInputs 0 (appWith [] [sceneCat, sceneDog]) ! 0) =
     Some ''data:image/jpeg;base64,Q0FU'' \<and>
   error (scenesAfterRegenerate throwingEnv plainInputs 0 (appWith [] [sceneCat, sceneDog]) ! 0) =
     Some ''API Error.''"
proof -
  have f: "find (\<lambda>s. id_scene s = 0) (scenes_ws (appWith [] [sceneCat, sceneDog])) = Some sceneCat"
    by (simp add: appWith_def sceneCat_def)
  have c: "combinedStyle throwingEnv plainInputs = Returns ''watercolor''"
    by (simp add: combinedStyle_def throwingEnv_def plainInputs_def trim_def isSpace_def)
  have g: "generateImage throwingEnv 0 (fullPrompt (prompt sceneCat) ''watercolor'') =
     Throws \<lparr>message = Some ''Quota exceeded for today''\<rparr>"
    by (simp add: throwingEnv_def)
  have k: "apiKey throwingEnv"
    by (simp add: throwingEnv_def)
  have i: "0 < length (scenes_ws (appWith [] [sceneCat, sceneDog]))"
     "id_scene (scenes_ws (appWith [] [sceneCat, sceneDog]) ! 0) = 0"
    by (simp_all add: appWith_def sceneCat_def)
  show ?thesis
    using f c g regenerate_failure_keeps_image [OF f k i, of plainInputs
        "\<lparr>message = Some ''Quota exceeded for today''\<rparr>" "''watercolor''"]
    by (simp add: appWith_def sceneCat_def)
qed

section \<open>Saving a session\<close>

declare saveLoop.simps [simp del]

lemma saveLoop_fits: "dryRun cand = None \<Longrightarrow> saveLoop dryRun cand = Some cand"
  by (subst saveLoop.simps) simp

lemma saveLoop_shift:
  "dryRun cand = Some e \<Longrightarrow> isQuotaExceeded e \<Longrightarrow> 1 < length cand \<Longrightarrow>
   saveLoop dryRun cand = saveLoop dryRun (tl cand)"
  by (subst saveLoop.simps) simp

lemma saveLoop_abort:
  "dryRun cand = Some e \<Longrightarrow> \<not> isQuotaExceeded e \<or> length cand \<le> 1 \<Longrightarrow>
   saveLoop dryRun cand = None"
  by (subst saveLoop.simps) auto

lemma saveLoop_evict:
  "k < length cand \<Longrightarrow>
   \<forall>j<k. \<exists>e. dryRun (drop j cand) = Some e \<and> isQuotaExceeded e \<Longrightarrow>
   saveLoop dryRun cand = saveLoop dryRun (drop k cand)"
proof (induction k arbitrary: cand)
  case 0
  show ?case by simp
next
  case (Suc k)
  from Suc.prems(2) obtain e where e: "dryRun cand = Some e" "isQuotaExceeded e"
    by force
  from Suc.prems(1) have len: "1 < length cand" "k < length (tl cand)"
    by simp_all
  have later: "\<forall>j<k. \<exists>e. dryRun (drop j (tl cand)) = Some e \<and> isQuotaExceeded e"
  proof (intro allI impI)
    fix j assume "j < k"
    then have "Suc j < Suc k" by simp
    with Suc.prems(2) have "\<exists>e. dryRun (drop (Suc j) cand) = Some e \<and> isQuotaExceeded e"
      by blast
    then show "\<exists>e. dryRun (drop j (tl cand)) = Some e \<and> isQuotaExceeded e"
      by (simp add: drop_Suc)
  qed
  have "saveLoop dryRun cand = saveLoop dryRun (tl cand)"
    using e len(1) by (rule saveLoop_shift)
  also have "\<dots> = saveLoop dryRun (drop k (tl cand))"
    using len(2) later by (rule Suc.IH)
  finally show ?case
    by (simp add: drop_Suc)
qed

lemma saveLoop_Some:
  "saveLoop dryRun cand = Some saved \<Longrightarrow>
   dryRun saved = None \<and> (\<exists>k. saved = drop k cand \<and> (cand \<noteq> [] \<longrightarrow> k < length cand))"
proof (induction dryRun cand rule: saveLoop.induct)
  case (1 dryRun cand)
  show ?case
  proof (cases "dryRun cand")
    case None
    with "1.prems" have "saved = cand"
      by (simp add: saveLoop_fits)
    with None show ?thesis
      by (auto intro: exI [of _ 0])
  next
    case (Some e)
    show ?thesis
    proof (cases "isQuotaExceeded e \<and> 1 < length cand")
      case True
      with Some "1.prems" have "saveLoop dryRun (tl cand) = Some saved"
        by (simp add: saveLoop_shift)
      with "1.IH" [OF Some] True
      obtain k where "dryRun saved = None" "saved = drop k (tl cand)"
        "tl cand \<noteq> [] \<longrightarrow> k < length (tl cand)"
        by blast
      moreover from True have "tl cand \<noteq> []"
        by (cases cand) auto
      ultimately show ?thesis
        by (auto simp: drop_Suc [symmetric] intro!: exI [of _ "Suc k"])
    next
      case False
      with Some have "saveLoop dryRun cand = None"
        by (auto intro: saveLoop_abort)
      with "1.prems" show ?thesis by simp
    qed
  qed
qed


text \<open>
  Claim C4. When the dry run fails for quota on the candidate and on each of its first
  \<open>k\<close> shortenings, and accepts the candidate without its \<open>k\<close> oldest sessions, the
  stored sequence becomes the old one without its first \<open>k\<close> sessions, followed by the
  new session: the oldest go first, one per round, and the survivors keep their order.
\<close>

theorem append_evicts_oldest_first:
  assumes k: "k \<le> length (sessions s0)"
    and full: "\<forall>j<k. \<exists>e. dryRun (drop j (sessions s0 @ [newSession])) = Some e \<and> isQuotaExceeded e"
    and fits: "dryRun (drop k (sessions s0 @ [newSession])) = None"
  shows "sessions (handleGenerationComplete dryRun newSession s0) = drop k (sessions s0) @ [newSession]"
proof -
  from k have "k < length (sessions s0 @ [newSession])"
    by simp
  then have "saveLoop dryRun (sessions s0 @ [newSession]) =
             saveLoop dryRun (drop k (sessions s0 @ [newSession]))"
    using full by (rule saveLoop_evict)
  also have "\<dots> = Some (drop k (sessions s0 @ [newSession]))"
    using fits by (rule saveLoop_fits)
  finally show ?thesis
    using k by (simp add: handleGenerationComplete_def)
qed

theorem append_evicts_oldest_first_witness:
  "sessions (handleGenerationComplete (roomFor 2) sessionC (appWith [sessionA, sessionB] [])) =
     [sessionB, sessionC]"
  using append_evicts_oldest_first [of 1 "appWith [sessionA, sessionB] []" "roomFor 2" sessionC]
  by (simp add: appWith_def roomFor_def quotaError_def isQuotaExceeded_def)

text \<open>
  Claim C3. When, after \<open>k\<close> evictions for quota, the dry run fails for another reason or
  fails for quota with only the new session left, the save is aborted: the session
  collection is the one before the call and the storage notification is set. And on
  every call the session collection afterwards is the old one or a value that the dry
  run accepted.
\<close>

theorem failed_append_keeps_sessions:
  "(k \<le> length (sessions s0) \<and>
    (\<forall>j<k. \<exists>e. dryRun (drop j (sessions s0 @ [newSession])) = Some e \<and> isQuotaExceeded e) \<and>
    dryRun (drop k (sessions s0 @ [newSession])) = Some e \<and>
    (\<not> isQuotaExceeded e \<or> k = length (sessions s0)) \<longrightarrow>
      sessions (handleGenerationComplete dryRun newSession s0) = sessions s0 \<and>
      globalMessage (handleGenerationComplete dryRun newSession s0) =
        Some \<lparr>text_msg = ''Storage is full. Could not save session. Please clear some assets.'',
              type_msg = MsgError\<rparr>) \<and>
   (sessions (handleGenerationComplete dryRun newSession s0) = sessions s0 \<or>
    dryRun (sessions (handleGenerationComplete dryRun newSession s0)) = None)"
proof (intro conjI impI)
  assume h: "k \<le> length (sessions s0) \<and>
    (\<forall>j<k. \<exists>e. dryRun (drop j (sessions s0 @ [newSession])) = Some e \<and> isQuotaExceeded e) \<and>
    dryRun (drop k (sessions s0 @ [newSession])) = Some e \<and>
    (\<not> isQuotaExceeded e \<or> k = length (sessions s0))"
  then have "k < length (sessions s0 @ [newSession])"
    by simp
  then have "saveLoop dryRun (sessions s0 @ [newSession]) =
             saveLoop dryRun (drop k (sessions s0 @ [newSession]))"
    using h by (intro saveLoop_evict) blast+
  also have "\<dots> = None"
  proof (rule saveLoop_abort)
    show "dryRun (drop k (sessions s0 @ [newSession])) = Some e"
      using h by blast
    show "\<not> isQuotaExceeded e \<or> length (drop k (sessions s0 @ [newSession])) \<le> 1"
      using h by auto
  qed
  finally have none: "saveLoop dryRun (sessions s0 @ [newSession]) = None" .
  then show "sessions (handleGenerationComplete dryRun newSession s0) = sessions s0"
    by (simp add: handleGenerationComplete_def)
  from none show "globalMessage (handleGenerationComplete dryRun newSession s0) =
        Some \<lparr>text_msg = ''Storage is full. Could not save session. Please clear some assets.'',
              type_msg = MsgError\<rparr>"
    by (simp add: handleGenerationComplete_def)
next
  show "sessions (handleGenerationComplete dryRun newSession s0) = sessions s0 \<or>
    dryRun (sessions (handleGenerationComplete dryRun newSession s0)) = None"
  proof (cases "saveLoop dryRun (sessions s0 @ [newSession])")
    case None
    then show ?thesis
      by (simp add: handleGenerationComplete_def)
  next
    case (Some saved)
    then have "dryRun saved = None"
      by (simp add: saveLoop_Some)
    with Some show ?thesis
      by (simp add: handleGenerationComplete_def)
  qed
qed

theorem failed_append_keeps_sessions_witness:
  "roomFor 0 (drop 0 ([sessionA] @ [sessionB])) = Some quotaError \<and>
   roomFor 0 (drop 1 ([sessionA] @ [sessionB])) = Some quotaError \<and>
   isQuotaExceeded quotaError \<and>
   sessions (handleGenerationComplete (roomFor 0) sessionB (appWith [sessionA] [])) = [sessionA]"
  using failed_append_keeps_sessions [of 1 "appWith [sessionA] []" "roomFor 0" sessionB quotaError]
  by (simp add: appWith_def roomFor_def quotaError_def isQuotaExceeded_def)

text \<open>
  Claim C2 as stated fails: \<^verbatim>\<open>setPromptHistory\<close> runs before the save loop, so an aborted
  save has already extended the prompt history. With a store that accepts nothing, the
  save of the second example session is aborted and the history has changed.
\<close>

theorem failed_append_prompt_history_counterexample:
  "saveLoop (roomFor 0) (sessions (appWith [sessionA] []) @ [sessionB]) = None \<and>
   promptHistory (handleGenerationComplete (roomFor 0) sessionB (appWith [sessionA] [])) \<noteq>
   promptHistory (appWith [sessionA] [])"
  by (simp add: saveLoop.simps handleGenerationComplete_def appWith_def roomFor_def quotaError_def
      isQuotaExceeded_def newPrompts_def sessionB_def sceneCatLater_def)

text \<open>
  Claim C2, amended. When the save is aborted, the session collection is unchanged and
  the storage notification is set, while the prompt history has gained one entry for every
  scene of the session with a non-empty prompt.
\<close>

theorem failed_append_still_records_prompts:
  assumes "saveLoop dryRun (sessions s0 @ [newSession]) = None"
  shows "promptHistory (handleGenerationComplete dryRun newSession s0) =
           promptHistory s0 @
           map (\<lambda>s. \<lparr>id_entry = id_session newSession @ ''-'' @ digits (id_scene s),
                      text_entry = prompt s, timestamp_entry = timestamp newSession\<rparr>)
               (filter (\<lambda>s. prompt s \<noteq> []) (scenes newSession)) \<and>
         sessions (handleGenerationComplete dryRun newSession s0) = sessions s0 \<and>
         globalMessage (handleGenerationComplete dryRun newSession s0) =
           Some \<lparr>text_msg = ''Storage is full. Could not save session. Please clear some assets.'',
                 type_msg = MsgError\<rparr>"
  using assms by (simp add: handleGenerationComplete_def newPrompts_def)

theorem failed_append_still_records_prompts_witness:
  "saveLoop (roomFor 0) (sessions (appWith [sessionA] []) @ [sessionB]) = None \<and>
   promptHistory (handleGenerationComplete (roomFor 0) sessionB (appWith [sessionA] [])) =
     [\<lparr>id_entry = ''2024-05-02T10:00:00.000Z-2'', text_entry = ''a cat'',
       timestamp_entry = ''2024-05-02T10:00:00.001Z''\<rparr>] \<and>
   sessions (handleGenerationComplete (roomFor 0) sessionB (appWith [sessionA] [])) = [sessionA]"
proof -
  have none: "saveLoop (roomFor 0) (sessions (appWith [sessionA] []) @ [sessionB]) = None"
    by (simp add: saveLoop.simps appWith_def roomFor_def quotaError_def isQuotaExceeded_def)
  show ?thesis
    using none failed_append_still_records_prompts [OF none]
    by (simp add: appWith_def sessionB_def sceneCatLater_def)
qed



section \<open>Prompt history images\<close>

lemma fold_addScene:
  "fold addScene xs m t =
     (case m t of
        Some v \<Rightarrow> Some v
      | None \<Rightarrow> (case find (\<lambda>sc. prompt sc = t \<and> truthy (image_scene sc)) xs of
                   None \<Rightarrow> None
                 | Some sc \<Rightarrow> image_scene sc))"
proof (induction xs arbitrary: m)
  case Nil
  show ?case by (simp split: option.split)
next
  case (Cons x xs)
  have "fold addScene (x # xs) m t = fold addScene xs (addScene x m) t"
    by simp
  also have "\<dots> =
     (case addScene x m t of
        Some v \<Rightarrow> Some v
      | None \<Rightarrow> (case find (\<lambda>sc. prompt sc = t \<and> truthy (image_scene sc)) xs of
                   None \<Rightarrow> None
                 | Some sc \<Rightarrow> image_scene sc))"
    by (rule Cons.IH)
  also have "\<dots> =
     (case m t of
        Some v \<Rightarrow> Some v
      | None \<Rightarrow> (case find (\<lambda>sc. prompt sc = t \<and> truthy (image_scene sc)) (x # xs) of
                   None \<Rightarrow> None
                 | Some sc \<Rightarrow> image_scene sc))"
    by (cases "image_scene x") (auto simp: addScene_def split: option.split)
  finally show ?case .
qed

lemma fold_sessions_concat:
  "fold (\<lambda>session m. fold addScene (scenes session) m) ss m =
   fold addScene (concat (map scenes ss)) m"
  by (induction ss arbitrary: m) simp_all

text \<open>
  The program keeps the condition on the stored sessions: a session handed over by
  \<^verbatim>\<open>generateImages\<close> holds only images written by the loop, the save loop keeps a part of
  the candidate, and a regeneration does not touch the sessions.
\<close>

lemma updatedScene_no_blank: "image_scene (updatedScene x r) \<noteq> Some []"
  by (simp add: updatedScene_def imageUrl_def split: option.split)

lemma synthLoop_no_blank:
  "\<forall>sc\<in>set (finalScenes L). image_scene sc \<noteq> Some [] \<Longrightarrow>
   \<forall>sc\<in>set (finalScenes (synthLoop svc st xs L)). image_scene sc \<noteq> Some []"
proof (induction xs arbitrary: L)
  case Nil
  then show ?case by simp
next
  case (Cons x xs)
  show ?case
  proof (cases "svc (length (imageCalls L)) (fullPrompt (prompt x) st)")
    case (Throws e)
    with Cons.prems show ?thesis
      by (simp add: Let_def)
  next
    case (Returns r)
    have "\<forall>sc\<in>set (finalScenes
             (L\<lparr>current := replaceScene (id_scene x) (updatedScene x r) (current L),
                finalScenes := finalScenes L @ [updatedScene x r],
                imageCalls := imageCalls L @ [fullPrompt (prompt x) st]\<rparr>)).
            image_scene sc \<noteq> Some []"
      using Cons.prems by (simp add: updatedScene_no_blank)
    from Cons.IH [OF this] show ?thesis
      by (simp add: Returns Let_def)
  qed
qed

lemma finish_no_blank:
  assumes "\<forall>sc\<in>set final. image_scene sc \<noteq> Some []"
    and "completed (finish env inp final sent s) = Some newSession"
  shows "noBlankImages [newSession]"
  using assms by (auto simp: finish_def noBlankImages_def list_all_iff split: if_splits)

lemma generateImages_no_blank:
  assumes "completed (generateImages env inp s0) = Some newSession"
  shows "noBlankImages [newSession]"
proof -
  have loop: "\<forall>sc\<in>set (finalScenes (synthLoop (generateImage env) st (newScenes ps)
                  \<lparr>current = newScenes ps, finalScenes = [], imageCalls = [], thrown = None\<rparr>)).
                image_scene sc \<noteq> Some []" for st ps
    by (rule synthLoop_no_blank) simp
  have nil: "\<forall>sc\<in>set ([] :: Scene list). image_scene sc \<noteq> Some []"
    by simp
  from assms show ?thesis
    unfolding generateImages_def Let_def
    by (auto split: if_splits attempt.splits decomposition.splits
        dest: finish_no_blank [OF nil] finish_no_blank [OF loop])
qed

lemma noBlankImages_append:
  "noBlankImages (xs @ ys) = (noBlankImages xs \<and> noBlankImages ys)"
  by (simp add: noBlankImages_def)

lemma noBlankImages_drop: "noBlankImages xs \<Longrightarrow> noBlankImages (drop k xs)"
  by (auto simp: noBlankImages_def list_all_iff dest: in_set_dropD)

lemma handleGenerationComplete_no_blank:
  assumes "noBlankImages (sessions s0)" "noBlankImages [newSession]"
  shows "noBlankImages (sessions (handleGenerationComplete dryRun newSession s0))"
proof (cases "saveLoop dryRun (sessions s0 @ [newSession])")
  case None
  with assms(1) show ?thesis
    by (simp add: handleGenerationComplete_def)
next
  case (Some saved)
  then obtain k where "saved = drop k (sessions s0 @ [newSession])"
    using saveLoop_Some by blast
  moreover have "noBlankImages (sessions s0 @ [newSession])"
    using assms by (simp add: noBlankImages_append)
  ultimately have "noBlankImages saved"
    by (simp only: noBlankImages_drop)
  with Some show ?thesis
    by (simp add: handleGenerationComplete_def)
qed

lemma generateImages_sessions: "sessions (state (generateImages env inp s0)) = sessions s0"
  by (simp add: generateImages_def finish_def Let_def
      split: attempt.split decomposition.split option.split)

lemma generateAndSave_no_blank:
  assumes "noBlankImages (sessions s0)"
  shows "noBlankImages (sessions (generateAndSave dryRun env inp s0))"
proof (cases "completed (generateImages env inp s0)")
  case None
  with assms show ?thesis
    by (simp add: generateAndSave_def generateImages_sessions)
next
  case (Some newSession)
  have "noBlankImages (sessions (handleGenerationComplete dryRun newSession
          (state (generateImages env inp s0))))"
    using assms generateImages_no_blank [OF Some]
    by (intro handleGenerationComplete_no_blank) (simp_all add: generateImages_sessions)
  with Some show ?thesis
    by (simp add: generateAndSave_def)
qed

lemma handleRegenerateScene_sessions:
  "sessions (fst (handleRegenerateScene env inp sceneId s0)) = sessions s0"
  by (simp add: handleRegenerateScene_def Let_def split: option.split attempt.split)

lemma find_cong_set: "(\<And>x. x \<in> set xs \<Longrightarrow> P x = Q x) \<Longrightarrow> find P xs = find Q xs"
  by (induction xs) simp_all

lemma noBlankImages_truthy:
  assumes "noBlankImages ss" "sc \<in> set (concat (map scenes ss))"
  shows "truthy (image_scene sc) = (image_scene sc \<noteq> None)"
proof -
  from assms have "image_scene sc \<noteq> Some []"
    by (auto simp: noBlankImages_def list_all_iff)
  then show ?thesis
    by (cases "image_scene sc") simp_all
qed

text \<open>
  Claim C6. For every stored session sequence (no stored image is the empty string) and
  every prompt text, \<^verbatim>\<open>promptImageMap.get(text)\<close> is the image of the first scene, in store
  order of the sessions and in order within each session, whose prompt equals the text
  and whose image is non-null, and nothing when there is no such scene. With sessions A
  then B both holding such a scene, the result is A's image.
\<close>

theorem promptImageMap_first_wins:
  assumes "noBlankImages ss"
  shows "promptImageMap ss t =
     (case find (\<lambda>sc. prompt sc = t \<and> image_scene sc \<noteq> None) (concat (map scenes ss)) of
        None \<Rightarrow> None
      | Some sc \<Rightarrow> image_scene sc)"
proof -
  have "find (\<lambda>sc. prompt sc = t \<and> truthy (image_scene sc)) (concat (map scenes ss)) =
        find (\<lambda>sc. prompt sc = t \<and> image_scene sc \<noteq> None) (concat (map scenes ss))"
    by (rule find_cong_set) (simp add: noBlankImages_truthy [OF assms])
  then show ?thesis
    by (simp add: promptImageMap_def fold_sessions_concat fold_addScene)
qed

theorem promptImageMap_first_wins_witness:
  "noBlankImages [sessionA, sessionB] \<and> noBlankImages [sessionB, sessionA] \<and>
   promptImageMap [sessionA, sessionB] ''a cat'' = image_scene sceneCat \<and>
   promptImageMap [sessionB, sessionA] ''a cat'' = image_scene sceneCatLater"
proof -
  have ok: "noBlankImages [sessionA, sessionB]" "noBlankImages [sessionB, sessionA]"
    by (simp_all add: noBlankImages_def sessionA_def sessionB_def sceneCat_def sceneDog_def
        sceneCatLater_def)
  show ?thesis
    using ok promptImageMap_first_wins [OF ok(1), of "''a cat''"]
      promptImageMap_first_wins [OF ok(2), of "''a cat''"]
    by (simp add: sessionA_def sessionB_def sceneCat_def sceneDog_def sceneCatLater_def)
qed

section \<open>The synthesis loop\<close>

lemma updatedScene_id [simp]: "id_scene (updatedScene x r) = id_scene x"
  by (simp add: updatedScene_def split: option.split)

lemma updatedScene_image_truthy:
  "truthy (image_scene (updatedScene x r)) = (image_scene (updatedScene x r) \<noteq> None)"
  by (simp add: updatedScene_def imageUrl_def split: option.split)

lemma updatedScene_not_loading [simp]: "\<not> isLoading (updatedScene x r)"
  by (simp add: updatedScene_def split: option.split)

lemma replaceScene_distinct:
  assumes "distinct (map id_scene (pre @ x # post))"
  shows "replaceScene (id_scene x) u (pre @ x # post) = pre @ u # post"
proof -
  from assms have notin: "id_scene x \<notin> id_scene ` set pre" "id_scene x \<notin> id_scene ` set post"
    by auto
  have pre: "\<And>s. s \<in> set pre \<Longrightarrow> id_scene s \<noteq> id_scene x"
    using notin(1) by (metis imageI)
  have post: "\<And>s. s \<in> set post \<Longrightarrow> id_scene s \<noteq> id_scene x"
    using notin(2) by (metis imageI)
  have "map (\<lambda>s. if id_scene s = id_scene x then u else s) pre = pre"
    by (rule map_idI) (simp add: pre)
  moreover have "map (\<lambda>s. if id_scene s = id_scene x then u else s) post = post"
    by (rule map_idI) (simp add: post)
  ultimately show ?thesis
    by (simp add: replaceScene_def)
qed

lemma synthLoop_returns:
  assumes "length rs = length xs"
    and "\<forall>i<length xs. svc (length (imageCalls L) + i) (fullPrompt (prompt (xs ! i)) st) = Returns (rs ! i)"
    and "current L = pre @ xs @ post"
    and "distinct (map id_scene (pre @ xs @ post))"
  shows "synthLoop svc st (xs @ ys) L =
         synthLoop svc st ys
           (L\<lparr>current := pre @ map2 updatedScene xs rs @ post,
              finalScenes := finalScenes L @ map2 updatedScene xs rs,
              imageCalls := imageCalls L @ map (\<lambda>x. fullPrompt (prompt x) st) xs\<rparr>)"
  using assms
proof (induction xs arbitrary: rs L pre)
  case Nil
  have "L\<lparr>current := pre @ post\<rparr> = L"
    using Nil.prems(3) by (simp add: Nil.prems(3) [symmetric])
  with Nil.prems(1) show ?case by simp
next
  case (Cons x xs)
  from Cons.prems(1) obtain r rs' where rs: "rs = r # rs'" and len: "length rs' = length xs"
    by (cases rs) auto
  define L1 where "L1 = L\<lparr>current := pre @ updatedScene x r # xs @ post,
                           finalScenes := finalScenes L @ [updatedScene x r],
                           imageCalls := imageCalls L @ [fullPrompt (prompt x) st]\<rparr>"
  from Cons.prems(2) have first: "svc (length (imageCalls L)) (fullPrompt (prompt x) st) = Returns r"
    using rs by force
  have repl: "replaceScene (id_scene x) (updatedScene x r) (current L) =
              pre @ updatedScene x r # xs @ post"
    using Cons.prems(3,4) by (simp add: replaceScene_distinct)
  have step: "synthLoop svc st ((x # xs) @ ys) L = synthLoop svc st (xs @ ys) L1"
    by (simp add: first repl L1_def Let_def)
  have later: "\<forall>i<length xs. svc (length (imageCalls L1) + i) (fullPrompt (prompt (xs ! i)) st) =
                 Returns (rs' ! i)"
  proof (intro allI impI)
    fix i assume "i < length xs"
    then have "Suc i < length (x # xs)" by simp
    with Cons.prems(2) have "svc (length (imageCalls L) + Suc i)
        (fullPrompt (prompt ((x # xs) ! Suc i)) st) = Returns (rs ! Suc i)"
      by blast
    then show "svc (length (imageCalls L1) + i) (fullPrompt (prompt (xs ! i)) st) = Returns (rs' ! i)"
      by (simp add: rs L1_def)
  qed
  have cur: "current L1 = (pre @ [updatedScene x r]) @ xs @ post"
    by (simp add: L1_def)
  have dist: "distinct (map id_scene ((pre @ [updatedScene x r]) @ xs @ post))"
    using Cons.prems(4) by simp
  have "synthLoop svc st (xs @ ys) L1 =
        synthLoop svc st ys
           (L1\<lparr>current := (pre @ [updatedScene x r]) @ map2 updatedScene xs rs' @ post,
               finalScenes := finalScenes L1 @ map2 updatedScene xs rs',
               imageCalls := imageCalls L1 @ map (\<lambda>x. fullPrompt (prompt x) st) xs\<rparr>)"
    using len later cur dist by (rule Cons.IH)
  with step show ?case
    by (simp add: rs L1_def)
qed


lemma newScenes_length [simp]: "length (newScenes ps) = length ps"
  by (simp add: newScenes_def)

lemma newScenes_nth:
  "i < length ps \<Longrightarrow>
   newScenes ps ! i = \<lparr>id_scene = i, prompt = ps ! i, image_scene = None,
                        isLoading = True, error = None\<rparr>"
  by (simp add: newScenes_def nth_enumerate_eq)

lemma newScenes_ids: "map id_scene (newScenes ps) = [0..<length ps]"
  by (rule nth_equalityI) (simp_all add: newScenes_nth)

lemma newScenes_prompts: "map prompt (newScenes ps) = ps"
  by (rule nth_equalityI) (simp_all add: newScenes_nth)

lemma newScenes_distinct: "distinct (map id_scene (newScenes ps))"
  by (simp add: newScenes_ids)

lemma newScenes_fresh:
  "s \<in> set (newScenes ps) \<Longrightarrow> isLoading s \<and> image_scene s = None \<and> error s = None"
  by (auto simp: in_set_conv_nth newScenes_nth)

lemma stopFurther_length [simp]: "length (stopFurther xs) = length xs"
  by (simp add: stopFurther_def)

lemma stopFurther_append: "stopFurther (xs @ ys) = stopFurther xs @ stopFurther ys"
  by (simp add: stopFurther_def)

lemma stopFurther_resolved:
  "\<forall>s\<in>set xs. \<not> isLoading s \<Longrightarrow> stopFurther xs = xs"
  unfolding stopFurther_def by (rule map_idI) simp

lemma stopFurther_loading:
  "\<forall>s\<in>set xs. isLoading s \<Longrightarrow>
   stopFurther xs = map (\<lambda>s. s\<lparr>isLoading := False, error := Some ''API Error.''\<rparr>) xs"
  unfolding stopFurther_def by (rule map_cong) simp_all

lemma map2_updatedScene_resolved:
  "\<forall>s\<in>set (map2 updatedScene xs rs). \<not> isLoading s"
  by (auto simp: in_set_zip)

lemma synthLoop_fail_fast:
  assumes k: "k < length ps" and rs: "length rs = k"
    and ok: "\<forall>i<k. svc i (fullPrompt (ps ! i) st) = Returns (rs ! i)"
    and bad: "svc k (fullPrompt (ps ! k) st) = Throws e"
  shows "synthLoop svc st (newScenes ps)
           \<lparr>current = newScenes ps, finalScenes = [], imageCalls = [], thrown = None\<rparr> =
         \<lparr>current = map2 updatedScene (take k (newScenes ps)) rs @
                     map (\<lambda>s. s\<lparr>isLoading := False, error := Some ''API Error.''\<rparr>)
                         (drop k (newScenes ps)),
          finalScenes = map2 updatedScene (take k (newScenes ps)) rs,
          imageCalls = map (\<lambda>p. fullPrompt p st) (take (Suc k) ps),
          thrown = Some e\<rparr>"
proof -
  define ns where "ns = newScenes ps"
  define L0 where "L0 = \<lparr>current = ns, finalScenes = [], imageCalls = [], thrown = None\<rparr>"
  define resolved where "resolved = map2 updatedScene (take k ns) rs"
  have len: "length ns = length ps"
    by (simp add: ns_def)
  have split: "ns = take k ns @ ns ! k # drop (Suc k) ns"
    using k len by (simp add: id_take_nth_drop)
  have nthp: "\<And>i. i < length ps \<Longrightarrow> prompt (ns ! i) = ps ! i"
    by (simp add: ns_def newScenes_nth)
  have calls: "map (\<lambda>x. fullPrompt (prompt x) st) (take k ns) @ [fullPrompt (prompt (ns ! k)) st] =
               map (\<lambda>p. fullPrompt p st) (take (Suc k) ps)"
  proof -
    have "map (\<lambda>x. fullPrompt (prompt x) st) (take (Suc k) ns) =
          map (\<lambda>p. fullPrompt p st) (take (Suc k) (map prompt ns))"
      by (simp add: take_map)
    then show ?thesis
      using k len by (simp add: take_Suc_conv_app_nth ns_def newScenes_prompts)
  qed
  have "synthLoop svc st (take k ns @ (ns ! k # drop (Suc k) ns)) L0 =
        synthLoop svc st (ns ! k # drop (Suc k) ns)
          (L0\<lparr>current := [] @ map2 updatedScene (take k ns) rs @ drop k ns,
              finalScenes := finalScenes L0 @ map2 updatedScene (take k ns) rs,
              imageCalls := imageCalls L0 @ map (\<lambda>x. fullPrompt (prompt x) st) (take k ns)\<rparr>)"
  proof (rule synthLoop_returns)
    show "length rs = length (take k ns)"
      using k len rs by simp
    show "\<forall>i<length (take k ns).
            svc (length (imageCalls L0) + i) (fullPrompt (prompt (take k ns ! i)) st) =
            Returns (rs ! i)"
      using k ok nthp by (simp add: L0_def)
    show "current L0 = [] @ take k ns @ drop k ns"
      by (simp add: L0_def)
    show "distinct (map id_scene ([] @ take k ns @ drop k ns))"
      by (simp add: ns_def newScenes_distinct)
  qed
  also have "\<dots> =
        \<lparr>current = stopFurther (resolved @ drop k ns), finalScenes = resolved,
         imageCalls = map (\<lambda>p. fullPrompt p st) (take (Suc k) ps), thrown = Some e\<rparr>"
    using k len rs bad nthp [OF k] calls by (simp add: L0_def resolved_def Let_def)
  also have "stopFurther (resolved @ drop k ns) =
             resolved @ map (\<lambda>s. s\<lparr>isLoading := False, error := Some ''API Error.''\<rparr>) (drop k ns)"
  proof -
    have "stopFurther resolved = resolved"
      unfolding resolved_def by (rule stopFurther_resolved) (rule map2_updatedScene_resolved)
    moreover have "\<forall>s\<in>set (drop k ns). isLoading s"
      by (auto simp: ns_def dest: in_set_dropD newScenes_fresh)
    ultimately show ?thesis
      by (simp add: stopFurther_append stopFurther_loading)
  qed
  finally show ?thesis
    using split by (simp add: ns_def L0_def resolved_def)
qed

section \<open>Fail-fast runs of generateImages\<close>

lemma generateImages_fail_fast:
  assumes run: "script_input inp \<noteq> []" "apiKey env" "combinedStyle env inp = Returns st"
      "decomposeScript env = PromptsArray ps"
    and k: "k < length ps" and rs: "length rs = k"
    and ok: "\<forall>i<k. generateImage env i (fullPrompt (ps ! i) st) = Returns (rs ! i)"
    and bad: "generateImage env k (fullPrompt (ps ! k) st) = Throws e"
  shows "generateImages env inp s0 =
         finish env inp (map2 updatedScene (take k (newScenes ps)) rs)
           (map (\<lambda>p. fullPrompt p st) (take (Suc k) ps))
           (s0\<lparr>isGenerating := True,
               scenes_ws := map2 updatedScene (take k (newScenes ps)) rs @
                            map (\<lambda>s. s\<lparr>isLoading := False, error := Some ''API Error.''\<rparr>)
                                (drop k (newScenes ps)),
               globalMessage := Some (handleApiError e)\<rparr>)"
proof -
  from k have "ps \<noteq> []" by auto
  then show ?thesis
    using run by (simp add: generateImages_def synthLoop_fail_fast [where svc = "generateImage env", OF k rs ok bad])
qed

lemma resolved_nth:
  assumes "i < k" "k \<le> length ps" "length rs = k"
  shows "(map2 updatedScene (take k (newScenes ps)) rs @ rest) ! i =
         (case rs ! i of
            Some bytes \<Rightarrow> \<lparr>id_scene = i, prompt = ps ! i, image_scene = Some (imageUrl bytes),
                             isLoading = False, error = None\<rparr>
          | None \<Rightarrow> \<lparr>id_scene = i, prompt = ps ! i, image_scene = None,
                       isLoading = False, error = Some ''Generation blocked or failed.''\<rparr>)"
  using assms by (simp add: nth_append newScenes_nth updatedScene_def split: option.split)

lemma stopped_nth:
  assumes "k \<le> i" "i < length ps" "length rs = k"
  shows "(map2 updatedScene (take k (newScenes ps)) rs @
          map (\<lambda>s. s\<lparr>isLoading := False, error := Some ''API Error.''\<rparr>)
              (drop k (newScenes ps))) ! i =
         \<lparr>id_scene = i, prompt = ps ! i, image_scene = None, isLoading = False,
          error = Some ''API Error.''\<rparr>"
  using assms by (simp add: nth_append newScenes_nth)

lemma plain_style: "combinedStyle env plainInputs = Returns ''watercolor''"
  by (simp add: combinedStyle_def plainInputs_def trim_def isSpace_def)

lemma throwing_run:
  assumes svc: "generateImage env = (\<lambda>n p. Throws e)" and key: "apiKey env"
    and ps: "decomposeScript env = PromptsArray [''a cat'', ''a dog'']"
  shows "generateImages env plainInputs (appWith [] []) =
     \<lparr>state = \<lparr>sessions = [], promptHistory = [],
                scenes_ws = [\<lparr>id_scene = 0, prompt = ''a cat'', image_scene = None,
                              isLoading = False, error = Some ''API Error.''\<rparr>,
                             \<lparr>id_scene = 1, prompt = ''a dog'', image_scene = None,
                              isLoading = False, error = Some ''API Error.''\<rparr>],
                isGenerating = False, globalMessage = Some (handleApiError e)\<rparr>,
      requests = [fullPrompt ''a cat'' ''watercolor''], completed = None\<rparr>"
proof -
  have script: "script_input plainInputs \<noteq> []"
    by (simp add: plainInputs_def)
  have k: "0 < length [''a cat'', ''a dog'']" "length ([] :: string option list) = 0"
    by simp_all
  have ok: "\<forall>i<0. generateImage env i (fullPrompt ([''a cat'', ''a dog''] ! i) ''watercolor'') =
              Returns ([] ! i)"
    by simp
  have bad: "generateImage env 0 (fullPrompt ([''a cat'', ''a dog''] ! 0) ''watercolor'') = Throws e"
    by (simp add: svc)
  show ?thesis
    unfolding generateImages_fail_fast [OF script key plain_style ps k ok bad]
    by (simp add: finish_def newScenes_def appWith_def)
qed

text \<open>
  Claim C1, amended. In a run whose script gives the prompts \<open>ps\<close>, let the image calls
  for the scenes before position \<open>k\<close> (counted from 0) return and the call for scene \<open>k\<close>
  throw. Then the scene list keeps its length; each scene before \<open>k\<close> is as its own call
  resolved it (the image and no error, or no image and the blocked label); every scene
  from \<open>k\<close> on has no image, is no longer loading and carries the fixed label
  \<^verbatim>\<open>API Error.\<close>, whatever the failure was; the image requests sent are exactly those of
  scenes \<open>0..k\<close>, so none is sent for a later scene; and the classified failure is the
  global notification.
\<close>

theorem fail_fast_marks_remaining_scenes:
  assumes run: "script_input inp \<noteq> []" "apiKey env" "combinedStyle env inp = Returns st"
      "decomposeScript env = PromptsArray ps"
    and k: "k < length ps" and rs: "length rs = k"
    and ok: "\<forall>i<k. generateImage env i (fullPrompt (ps ! i) st) = Returns (rs ! i)"
    and bad: "generateImage env k (fullPrompt (ps ! k) st) = Throws e"
  shows "length (scenes_ws (state (generateImages env inp s0))) = length ps \<and>
     (\<forall>i<k. scenes_ws (state (generateImages env inp s0)) ! i =
        (case rs ! i of
           Some bytes \<Rightarrow> \<lparr>id_scene = i, prompt = ps ! i, image_scene = Some (imageUrl bytes),
                            isLoading = False, error = None\<rparr>
         | None \<Rightarrow> \<lparr>id_scene = i, prompt = ps ! i, image_scene = None,
                      isLoading = False, error = Some ''Generation blocked or failed.''\<rparr>)) \<and>
     (\<forall>i. k \<le> i \<and> i < length ps \<longrightarrow>
        scenes_ws (state (generateImages env inp s0)) ! i =
          \<lparr>id_scene = i, prompt = ps ! i, image_scene = None, isLoading = False,
           error = Some ''API Error.''\<rparr>) \<and>
     requests (generateImages env inp s0) = map (\<lambda>p. fullPrompt p st) (take (Suc k) ps) \<and>
     globalMessage (state (generateImages env inp s0)) = Some (handleApiError e)"
proof -
  note eq = generateImages_fail_fast [OF run k rs ok bad, of s0]
  have "length (scenes_ws (state (generateImages env inp s0))) = length ps"
    using k rs by (simp add: eq finish_def)
  moreover have "\<forall>i<k. scenes_ws (state (generateImages env inp s0)) ! i =
        (case rs ! i of
           Some bytes \<Rightarrow> \<lparr>id_scene = i, prompt = ps ! i, image_scene = Some (imageUrl bytes),
                            isLoading = False, error = None\<rparr>
         | None \<Rightarrow> \<lparr>id_scene = i, prompt = ps ! i, image_scene = None,
                      isLoading = False, error = Some ''Generation blocked or failed.''\<rparr>)"
    using k rs by (simp add: eq finish_def resolved_nth)
  moreover have "\<forall>i. k \<le> i \<and> i < length ps \<longrightarrow>
        scenes_ws (state (generateImages env inp s0)) ! i =
          \<lparr>id_scene = i, prompt = ps ! i, image_scene = None, isLoading = False,
           error = Some ''API Error.''\<rparr>"
    using rs by (simp add: eq finish_def stopped_nth)
  moreover have "requests (generateImages env inp s0) = map (\<lambda>p. fullPrompt p st) (take (Suc k) ps)"
    by (simp add: eq finish_def)
  moreover have "globalMessage (state (generateImages env inp s0)) = Some (handleApiError e)"
    by (simp add: eq finish_def)
  ultimately show ?thesis
    by blast
qed

theorem fail_fast_marks_remaining_scenes_witness:
  "scenes_ws (state (generateImages secondFailsEnv plainInputs (appWith [] []))) ! 0 =
     \<lparr>id_scene = 0, prompt = ''a cat'', image_scene = Some ''data:image/jpeg;base64,Q0FU'',
      isLoading = False, error = None\<rparr> \<and>
   scenes_ws (state (generateImages secondFailsEnv plainInputs (appWith [] []))) ! 1 =
     \<lparr>id_scene = 1, prompt = ''a dog'', image_scene = None, isLoading = False,
      error = Some ''API Error.''\<rparr> \<and>
   scenes_ws (state (generateImages secondFailsEnv plainInputs (appWith [] []))) ! 2 =
     \<lparr>id_scene = 2, prompt = ''a bird'', image_scene = None, isLoading = False,
      error = Some ''API Error.''\<rparr> \<and>
   length (requests (generateImages secondFailsEnv plainInputs (appWith [] []))) = 2"
proof -
  have run: "script_input plainInputs \<noteq> []" "apiKey secondFailsEnv"
      "decomposeScript secondFailsEnv = PromptsArray [''a cat'', ''a dog'', ''a bird'']"
    by (simp_all add: plainInputs_def secondFailsEnv_def)
  have k: "(1::nat) < length [''a cat'', ''a dog'', ''a bird'']" "length [Some ''Q0FU''] = (1::nat)"
    by simp_all
  have ok: "\<forall>i<1. generateImage secondFailsEnv i
                (fullPrompt ([''a cat'', ''a dog'', ''a bird''] ! i) ''watercolor'') =
              Returns ([Some ''Q0FU''] ! i)"
    by (simp add: secondFailsEnv_def)
  have bad: "generateImage secondFailsEnv 1
                (fullPrompt ([''a cat'', ''a dog'', ''a bird''] ! 1) ''watercolor'') =
              Throws \<lparr>message = Some ''Quota exceeded for today''\<rparr>"
    by (simp add: secondFailsEnv_def)
  note t = fail_fast_marks_remaining_scenes
             [OF run(1,2) plain_style run(3) k ok bad, of "appWith [] []"]
  from t have a: "scenes_ws (state (generateImages secondFailsEnv plainInputs (appWith [] []))) ! 0 =
     (case [Some ''Q0FU''] ! 0 of
        Some bytes \<Rightarrow> \<lparr>id_scene = 0, prompt = [''a cat'', ''a dog'', ''a bird''] ! 0,
                         image_scene = Some (imageUrl bytes), isLoading = False, error = None\<rparr>
      | None \<Rightarrow> \<lparr>id_scene = 0, prompt = [''a cat'', ''a dog'', ''a bird''] ! 0, image_scene = None,
                   isLoading = False, error = Some ''Generation blocked or failed.''\<rparr>)"
    by simp
  from t have b: "\<And>i. 1 \<le> i \<and> i < length [''a cat'', ''a dog'', ''a bird''] \<Longrightarrow>
      scenes_ws (state (generateImages secondFailsEnv plainInputs (appWith [] []))) ! i =
        \<lparr>id_scene = i, prompt = [''a cat'', ''a dog'', ''a bird''] ! i, image_scene = None,
         isLoading = False, error = Some ''API Error.''\<rparr>"
    by blast
  from t have c: "requests (generateImages secondFailsEnv plainInputs (appWith [] [])) =
      map (\<lambda>p. fullPrompt p ''watercolor'') (take (Suc 1) [''a cat'', ''a dog'', ''a bird''])"
    by blast
  show ?thesis
    using a b [of 1] b [of 2] c by (simp add: imageUrl_def)
qed

text \<open>
  Claim C1 as stated fails where it says that the failed scenes carry the classified
  error. With two prompts and a first call that throws a quota failure, the
  classification is the quota notification, but both scenes carry \<^verbatim>\<open>API Error.\<close>; a
  permission failure leaves the very same scene list and a different notification.
\<close>

theorem fail_fast_scene_error_counterexample:
  "globalMessage (state (generateImages throwingEnv plainInputs (appWith [] []))) =
     Some (handleApiError \<lparr>message = Some ''Quota exceeded for today''\<rparr>) \<and>
   handleApiError \<lparr>message = Some ''Quota exceeded for today''\<rparr> =
     \<lparr>text_msg = ''The API key has exceeded its quota.'', type_msg = MsgError\<rparr> \<and>
   error (scenes_ws (state (generateImages throwingEnv plainInputs (appWith [] []))) ! 0) =
     Some ''API Error.'' \<and>
   error (scenes_ws (state (generateImages throwingEnv plainInputs (appWith [] []))) ! 1) =
     Some ''API Error.'' \<and>
   error (scenes_ws (state (generateImages throwingEnv plainInputs (appWith [] []))) ! 1) \<noteq>
     Some (text_msg (handleApiError \<lparr>message = Some ''Quota exceeded for today''\<rparr>)) \<and>
   scenes_ws (state (generateImages deniedEnv plainInputs (appWith [] []))) =
     scenes_ws (state (generateImages throwingEnv plainInputs (appWith [] []))) \<and>
   globalMessage (state (generateImages deniedEnv plainInputs (appWith [] []))) \<noteq>
     globalMessage (state (generateImages throwingEnv plainInputs (appWith [] [])))"
proof -
  have q: "handleApiError \<lparr>message = Some ''Quota exceeded for today''\<rparr> =
     \<lparr>text_msg = ''The API key has exceeded its quota.'', type_msg = MsgError\<rparr>"
    by (simp add: handleApiError_def toLowerCase_def toLowerCase_char_def)
  have d: "handleApiError \<lparr>message = Some ''Permission denied''\<rparr> =
     \<lparr>text_msg = ''The configured API key is invalid or has been blocked.'', type_msg = MsgError\<rparr>"
    by (simp add: handleApiError_def toLowerCase_def toLowerCase_char_def)
  have t: "generateImages throwingEnv plainInputs (appWith [] []) =
     \<lparr>state = \<lparr>sessions = [], promptHistory = [],
                scenes_ws = [\<lparr>id_scene = 0, prompt = ''a cat'', image_scene = None,
                              isLoading = False, error = Some ''API Error.''\<rparr>,
                             \<lparr>id_scene = 1, prompt = ''a dog'', image_scene = None,
                              isLoading = False, error = Some ''API Error.''\<rparr>],
                isGenerating = False,
                globalMessage = Some (handleApiError \<lparr>message = Some ''Quota exceeded for today''\<rparr>)\<rparr>,
      requests = [fullPrompt ''a cat'' ''watercolor''], completed = None\<rparr>"
    by (rule throwing_run) (simp_all add: throwingEnv_def)
  have n: "generateImages deniedEnv plainInputs (appWith [] []) =
     \<lparr>state = \<lparr>sessions = [], promptHistory = [],
                scenes_ws = [\<lparr>id_scene = 0, prompt = ''a cat'', image_scene = None,
                              isLoading = False, error = Some ''API Error.''\<rparr>,
                             \<lparr>id_scene = 1, prompt = ''a dog'', image_scene = None,
                              isLoading = False, error = Some ''API Error.''\<rparr>],
                isGenerating = False,
                globalMessage = Some (handleApiError \<lparr>message = Some ''Permission denied''\<rparr>)\<rparr>,
      requests = [fullPrompt ''a cat'' ''watercolor''], completed = None\<rparr>"
    by (rule throwing_run) (simp_all add: deniedEnv_def throwingEnv_def)
  show ?thesis
    unfolding t n by (simp add: q d)
qed

section \<open>Which runs are handed to persistence\<close>

lemma stopFurther_holds_image:
  "(\<exists>s\<in>set (stopFurther ys). image_scene s \<noteq> None) = (\<exists>s\<in>set ys. image_scene s \<noteq> None)"
  by (auto simp: stopFurther_def)

lemma synthLoop_images:
  assumes "current L = pre @ xs"
    and "distinct (map id_scene (pre @ xs))"
    and "\<forall>s\<in>set xs. image_scene s = None"
    and "(\<exists>s\<in>set pre. image_scene s \<noteq> None) = (\<exists>s\<in>set (finalScenes L). truthy (image_scene s))"
  shows "((\<exists>s\<in>set (current (synthLoop svc st xs L)). image_scene s \<noteq> None) =
          (\<exists>s\<in>set (finalScenes (synthLoop svc st xs L)). truthy (image_scene s))) \<and>
         length (current (synthLoop svc st xs L)) = length (current L)"
  using assms
proof (induction xs arbitrary: L pre)
  case Nil
  then show ?case by simp
next
  case (Cons x xs)
  show ?case
  proof (cases "svc (length (imageCalls L)) (fullPrompt (prompt x) st)")
    case (Throws e)
    have c: "current (synthLoop svc st (x # xs) L) = stopFurther (pre @ x # xs)"
      using Cons.prems(1) by (simp add: Throws Let_def)
    have f: "finalScenes (synthLoop svc st (x # xs) L) = finalScenes L"
      by (simp add: Throws Let_def)
    have "(\<exists>s\<in>set (stopFurther (pre @ x # xs)). image_scene s \<noteq> None) =
          (\<exists>s\<in>set (pre @ x # xs). image_scene s \<noteq> None)"
      by (rule stopFurther_holds_image)
    also have "\<dots> = (\<exists>s\<in>set pre. image_scene s \<noteq> None)"
      using Cons.prems(3) by auto
    also have "\<dots> = (\<exists>s\<in>set (finalScenes L). truthy (image_scene s))"
      by (rule Cons.prems(4))
    finally have iff: "(\<exists>s\<in>set (stopFurther (pre @ x # xs)). image_scene s \<noteq> None) =
          (\<exists>s\<in>set (finalScenes L). truthy (image_scene s))" .
    show ?thesis
    proof (intro conjI)
      show "(\<exists>s\<in>set (current (synthLoop svc st (x # xs) L)). image_scene s \<noteq> None) =
            (\<exists>s\<in>set (finalScenes (synthLoop svc st (x # xs) L)). truthy (image_scene s))"
        unfolding c f by (rule iff)
      show "length (current (synthLoop svc st (x # xs) L)) = length (current L)"
        unfolding c using Cons.prems(1) by simp
    qed
  next
    case (Returns r)
    define L1 where "L1 = L\<lparr>current := pre @ updatedScene x r # xs,
                             finalScenes := finalScenes L @ [updatedScene x r],
                             imageCalls := imageCalls L @ [fullPrompt (prompt x) st]\<rparr>"
    have repl: "replaceScene (id_scene x) (updatedScene x r) (current L) =
                pre @ updatedScene x r # xs"
      using Cons.prems(1,2) by (simp add: replaceScene_distinct)
    have step: "synthLoop svc st (x # xs) L = synthLoop svc st xs L1"
      by (simp add: Returns repl L1_def Let_def)
    have cur: "current L1 = (pre @ [updatedScene x r]) @ xs"
      by (simp add: L1_def)
    have dist: "distinct (map id_scene ((pre @ [updatedScene x r]) @ xs))"
      using Cons.prems(2) by simp
    have none: "\<forall>s\<in>set xs. image_scene s = None"
      using Cons.prems(3) by simp
    have inv: "(\<exists>s\<in>set (pre @ [updatedScene x r]). image_scene s \<noteq> None) =
               (\<exists>s\<in>set (finalScenes L1). truthy (image_scene s))"
      using Cons.prems(4) by (auto simp: L1_def updatedScene_image_truthy)
    have len: "length (current L1) = length (current L)"
      using Cons.prems(1) by (simp add: L1_def)
    from Cons.IH [OF cur dist none inv] step len show ?thesis
      by simp
  qed
qed

text \<open>
  Claim C5. For every run that reaches the synthesis loop (a script, a key, a resolved
  style and a non-empty prompt list), however the image calls answer:
  \<^verbatim>\<open>onGenerationComplete\<close> is called if and only if some scene of the final scene list
  holds an image; the scene list has one scene per prompt in either case; without a call
  the application state is the one the run left, with sessions and prompt history as
  before; with a call the session goes to \<^verbatim>\<open>handleGenerationComplete\<close>.
\<close>

theorem session_completed_iff_some_image:
  assumes run: "script_input inp \<noteq> []" "apiKey env" "combinedStyle env inp = Returns st"
      "decomposeScript env = PromptsArray ps" "ps \<noteq> []"
  shows "((completed (generateImages env inp s0) \<noteq> None) =
          (\<exists>sc\<in>set (scenes_ws (state (generateImages env inp s0))). image_scene sc \<noteq> None)) \<and>
         length (scenes_ws (state (generateImages env inp s0))) = length ps \<and>
         (completed (generateImages env inp s0) = None \<longrightarrow>
            generateAndSave dryRun env inp s0 = state (generateImages env inp s0)) \<and>
         (\<forall>newSession. completed (generateImages env inp s0) = Some newSession \<longrightarrow>
            generateAndSave dryRun env inp s0 =
              handleGenerationComplete dryRun newSession (state (generateImages env inp s0))) \<and>
         sessions (state (generateImages env inp s0)) = sessions s0 \<and>
         promptHistory (state (generateImages env inp s0)) = promptHistory s0"
proof -
  define L where "L = synthLoop (generateImage env) st (newScenes ps)
                        \<lparr>current = newScenes ps, finalScenes = [], imageCalls = [], thrown = None\<rparr>"
  have inv: "((\<exists>s\<in>set (current L). image_scene s \<noteq> None) =
              (\<exists>s\<in>set (finalScenes L). truthy (image_scene s))) \<and>
             length (current L) = length ps"
  proof -
    have "((\<exists>s\<in>set (current L). image_scene s \<noteq> None) =
              (\<exists>s\<in>set (finalScenes L). truthy (image_scene s))) \<and>
             length (current L) =
             length (current \<lparr>current = newScenes ps, finalScenes = [], imageCalls = [], thrown = None\<rparr>)"
      unfolding L_def
    proof (rule synthLoop_images [where pre = "[]"])
      show "current \<lparr>current = newScenes ps, finalScenes = [], imageCalls = [], thrown = None\<rparr> =
            [] @ newScenes ps"
        by simp
      show "distinct (map id_scene ([] @ newScenes ps))"
        by (simp add: newScenes_distinct)
      show "\<forall>s\<in>set (newScenes ps). image_scene s = None"
        by (simp add: newScenes_fresh)
      show "(\<exists>s\<in>set []. image_scene s \<noteq> None) =
            (\<exists>s\<in>set (finalScenes \<lparr>current = newScenes ps, finalScenes = [], imageCalls = [],
                                   thrown = None\<rparr>). truthy (image_scene s))"
        by simp
    qed
    then show ?thesis by simp
  qed
  have scenes: "scenes_ws (state (generateImages env inp s0)) = current L"
    using run by (simp add: generateImages_def finish_def Let_def L_def [symmetric] split: option.split)
  have compl: "(completed (generateImages env inp s0) \<noteq> None) =
               (\<exists>s\<in>set (finalScenes L). truthy (image_scene s))"
  proof -
    have "completed (generateImages env inp s0) =
          (if list_ex (\<lambda>sc. truthy (image_scene sc)) (finalScenes L)
           then Some \<lparr>id_session = nowId env, timestamp = nowTimestamp env,
                      script = script_input inp,
                      scenes = filter (\<lambda>sc. \<not> isLoading sc) (finalScenes L)\<rparr>
           else None)"
      using run by (simp add: generateImages_def finish_def Let_def L_def [symmetric])
    then show ?thesis
      by (simp add: list_ex_iff)
  qed
  have frame: "sessions (state (generateImages env inp s0)) = sessions s0"
      "promptHistory (state (generateImages env inp s0)) = promptHistory s0"
    using run by (simp_all add: generateImages_def finish_def Let_def L_def [symmetric] split: option.split)
  have save: "completed (generateImages env inp s0) = None \<longrightarrow>
            generateAndSave dryRun env inp s0 = state (generateImages env inp s0)"
    by (simp add: generateAndSave_def)
  have save': "\<forall>newSession. completed (generateImages env inp s0) = Some newSession \<longrightarrow>
            generateAndSave dryRun env inp s0 =
              handleGenerationComplete dryRun newSession (state (generateImages env inp s0))"
    by (simp add: generateAndSave_def)
  have iff: "(completed (generateImages env inp s0) \<noteq> None) =
          (\<exists>sc\<in>set (scenes_ws (state (generateImages env inp s0))). image_scene sc \<noteq> None)"
    unfolding scenes compl using inv by blast
  have len: "length (scenes_ws (state (generateImages env inp s0))) = length ps"
    unfolding scenes using inv by blast
  from iff len save save' frame show ?thesis
    by blast
qed

theorem session_completed_iff_some_image_witness:
  "completed (generateImages throwingEnv plainInputs (appWith [] [])) = None \<and>
   \<not> (\<exists>sc\<in>set (scenes_ws (state (generateImages throwingEnv plainInputs (appWith [] [])))).
        image_scene sc \<noteq> None) \<and>
   length (scenes_ws (state (generateImages throwingEnv plainInputs (appWith [] [])))) = 2 \<and>
   generateAndSave (roomFor 2) throwingEnv plainInputs (appWith [] []) =
     state (generateImages throwingEnv plainInputs (appWith [] [])) \<and>
   image_scene (scenes_ws (state (generateImages secondFailsEnv plainInputs (appWith [] []))) ! 0) \<noteq> None \<and>
   completed (generateImages secondFailsEnv plainInputs (appWith [] [])) \<noteq> None"
proof -
  have run: "script_input plainInputs \<noteq> []" "apiKey throwingEnv"
      "decomposeScript throwingEnv = PromptsArray [''a cat'', ''a dog'']"
      "[''a cat'', ''a dog''] \<noteq> ([] :: string list)"
    by (simp_all add: plainInputs_def throwingEnv_def)
  have none: "completed (generateImages throwingEnv plainInputs (appWith [] [])) = None"
    by (subst throwing_run) (simp_all add: throwingEnv_def)
  have run2: "apiKey secondFailsEnv"
      "decomposeScript secondFailsEnv = PromptsArray [''a cat'', ''a dog'', ''a bird'']"
      "[''a cat'', ''a dog'', ''a bird''] \<noteq> ([] :: string list)"
    by (simp_all add: secondFailsEnv_def)
  have k: "(1::nat) < length [''a cat'', ''a dog'', ''a bird'']" "length [Some ''Q0FU''] = (1::nat)"
    by simp_all
  have ok: "\<forall>i<1. generateImage secondFailsEnv i
                (fullPrompt ([''a cat'', ''a dog'', ''a bird''] ! i) ''watercolor'') =
              Returns ([Some ''Q0FU''] ! i)"
    by (simp add: secondFailsEnv_def)
  have bad: "generateImage secondFailsEnv 1
                (fullPrompt ([''a cat'', ''a dog'', ''a bird''] ! 1) ''watercolor'') =
              Throws \<lparr>message = Some ''Quota exceeded for today''\<rparr>"
    by (simp add: secondFailsEnv_def)
  have first: "scenes_ws (state (generateImages secondFailsEnv plainInputs (appWith [] []))) ! 0 =
      \<lparr>id_scene = 0, prompt = ''a cat'', image_scene = Some (imageUrl ''Q0FU''),
       isLoading = False, error = None\<rparr>"
    unfolding generateImages_fail_fast [OF run(1) run2(1) plain_style run2(2) k ok bad]
    by (simp add: finish_def newScenes_def updatedScene_def)
  have len3: "length (scenes_ws (state (generateImages secondFailsEnv plainInputs (appWith [] [])))) = 3"
    unfolding generateImages_fail_fast [OF run(1) run2(1) plain_style run2(2) k ok bad]
    by (simp add: finish_def)
  have img: "image_scene (scenes_ws (state (generateImages secondFailsEnv plainInputs (appWith [] []))) ! 0) \<noteq> None"
    by (simp add: first)
  then have ex: "\<exists>sc\<in>set (scenes_ws (state (generateImages secondFailsEnv plainInputs (appWith [] [])))).
        image_scene sc \<noteq> None"
    using len3 by (metis nth_mem zero_less_numeral)
  have "completed (generateImages secondFailsEnv plainInputs (appWith [] [])) \<noteq> None"
    using ex session_completed_iff_some_image
      [OF run(1) run2(1) plain_style run2(2,3), of "appWith [] []" "roomFor 2"]
    by blast
  with img show ?thesis
    using none session_completed_iff_some_image
      [OF run(1,2) plain_style run(3,4), of "appWith [] []" "roomFor 2"]
    by simp
qed

lemma filter_resolved:
  "filter (\<lambda>sc. \<not> isLoading sc) (map2 updatedScene xs rs) = map2 updatedScene xs rs"
  using map2_updatedScene_resolved [of xs rs] by (simp only: filter_id_conv)

lemma resolved_holds_image:
  assumes "i < k" "k \<le> length ps" "length rs = k" "rs ! i \<noteq> None"
  shows "list_ex (\<lambda>sc. truthy (image_scene sc)) (map2 updatedScene (take k (newScenes ps)) rs)"
proof -
  have len: "i < length (map2 updatedScene (take k (newScenes ps)) rs)"
    using assms by simp
  have "map2 updatedScene (take k (newScenes ps)) rs ! i = updatedScene (newScenes ps ! i) (rs ! i)"
    using assms by simp
  moreover have "truthy (image_scene (updatedScene (newScenes ps ! i) (rs ! i)))"
    using assms(4) by (auto simp: updatedScene_def imageUrl_def)
  ultimately have "truthy (image_scene (map2 updatedScene (take k (newScenes ps)) rs ! i))"
    by simp
  with len show ?thesis
    unfolding list_ex_iff using nth_mem by blast
qed

text \<open>
  Claim C9. When the call for scene \<open>k\<close> (counted from 0) throws after at least one
  earlier call returned an image, the session passed on for saving holds exactly the
  \<open>k\<close> scenes resolved before the failure, in order; the scene list in memory is these
  \<open>k\<close> scenes followed by the remaining scenes marked as failed, which are not part of
  the session.
\<close>

theorem fail_fast_session_excludes_failed_scenes:
  assumes run: "script_input inp \<noteq> []" "apiKey env" "combinedStyle env inp = Returns st"
      "decomposeScript env = PromptsArray ps"
    and k: "k < length ps" and rs: "length rs = k"
    and ok: "\<forall>i<k. generateImage env i (fullPrompt (ps ! i) st) = Returns (rs ! i)"
    and bad: "generateImage env k (fullPrompt (ps ! k) st) = Throws e"
    and some: "\<exists>i<k. rs ! i \<noteq> None"
  shows "completed (generateImages env inp s0) =
           Some \<lparr>id_session = nowId env, timestamp = nowTimestamp env, script = script_input inp,
                 scenes = map2 updatedScene (take k (newScenes ps)) rs\<rparr> \<and>
         scenes_ws (state (generateImages env inp s0)) =
           map2 updatedScene (take k (newScenes ps)) rs @
           map (\<lambda>s. s\<lparr>isLoading := False, error := Some ''API Error.''\<rparr>) (drop k (newScenes ps)) \<and>
         length (map2 updatedScene (take k (newScenes ps)) rs) = k \<and>
         length (drop k (newScenes ps)) = length ps - k \<and>
         generateAndSave dryRun env inp s0 =
           handleGenerationComplete dryRun
             \<lparr>id_session = nowId env, timestamp = nowTimestamp env, script = script_input inp,
              scenes = map2 updatedScene (take k (newScenes ps)) rs\<rparr>
             (state (generateImages env inp s0))"
proof -
  note eq = generateImages_fail_fast [OF run k rs ok bad, of s0]
  from some obtain i where i: "i < k" "rs ! i \<noteq> None"
    by blast
  have img: "list_ex (\<lambda>sc. truthy (image_scene sc)) (map2 updatedScene (take k (newScenes ps)) rs)"
    using i(1) _ rs i(2) by (rule resolved_holds_image) (use k in simp)
  have compl: "completed (generateImages env inp s0) =
           Some \<lparr>id_session = nowId env, timestamp = nowTimestamp env, script = script_input inp,
                 scenes = map2 updatedScene (take k (newScenes ps)) rs\<rparr>"
    by (simp add: eq finish_def img filter_resolved)
  have mem: "scenes_ws (state (generateImages env inp s0)) =
           map2 updatedScene (take k (newScenes ps)) rs @
           map (\<lambda>s. s\<lparr>isLoading := False, error := Some ''API Error.''\<rparr>) (drop k (newScenes ps))"
    by (simp add: eq finish_def)
  have lens: "length (map2 updatedScene (take k (newScenes ps)) rs) = k"
      "length (drop k (newScenes ps)) = length ps - k"
    using k rs by simp_all
  have save: "generateAndSave dryRun env inp s0 =
           handleGenerationComplete dryRun
             \<lparr>id_session = nowId env, timestamp = nowTimestamp env, script = script_input inp,
              scenes = map2 updatedScene (take k (newScenes ps)) rs\<rparr>
             (state (generateImages env inp s0))"
    by (simp add: generateAndSave_def compl)
  from compl mem lens save show ?thesis
    by blast
qed

theorem fail_fast_session_excludes_failed_scenes_witness:
  "completed (generateImages secondFailsEnv plainInputs (appWith [] [])) =
     Some \<lparr>id_session = ''2024-05-04T10:00:00.000Z'', timestamp = ''2024-05-04T10:00:00.001Z'',
           script = ''A cat meets a dog.'',
           scenes = [\<lparr>id_scene = 0, prompt = ''a cat'',
                      image_scene = Some ''data:image/jpeg;base64,Q0FU'',
                      isLoading = False, error = None\<rparr>]\<rparr> \<and>
   length (scenes_ws (state (generateImages secondFailsEnv plainInputs (appWith [] [])))) = 3"
proof -
  have run: "script_input plainInputs \<noteq> []" "apiKey secondFailsEnv"
      "decomposeScript secondFailsEnv = PromptsArray [''a cat'', ''a dog'', ''a bird'']"
    by (simp_all add: plainInputs_def secondFailsEnv_def)
  have k: "(1::nat) < length [''a cat'', ''a dog'', ''a bird'']" "length [Some ''Q0FU''] = (1::nat)"
    by simp_all
  have ok: "\<forall>i<1. generateImage secondFailsEnv i
                (fullPrompt ([''a cat'', ''a dog'', ''a bird''] ! i) ''watercolor'') =
              Returns ([Some ''Q0FU''] ! i)"
    by (simp add: secondFailsEnv_def)
  have bad: "generateImage secondFailsEnv 1
                (fullPrompt ([''a cat'', ''a dog'', ''a bird''] ! 1) ''watercolor'') =
              Throws \<lparr>message = Some ''Quota exceeded for today''\<rparr>"
    by (simp add: secondFailsEnv_def)
  have some: "\<exists>i<1. [Some ''Q0FU''] ! i \<noteq> None"
    by simp
  show ?thesis
    using fail_fast_session_excludes_failed_scenes
      [OF run(1,2) plain_style run(3) k ok bad some, of "appWith [] []" "roomFor 2"]
    by (simp add: newScenes_def updatedScene_def imageUrl_def secondFailsEnv_def plainInputs_def)
qed

end
